theory Spec2Isabelle
  imports Complex_Main "HOL-Library.Multiset"
begin

section \<open>Numbers and errors\<close>

text \<open>
  The script works on numpy arrays of floating-point numbers. A float is a real
  number, NaN or an infinity. Rounding is outside the model and zero has no sign, but
  overflow is part of it: an operation whose exact result reaches
  \<open>2 ^ 1024 - 2 ^ 970\<close>, the bound from which rounding to nearest gives an infinity,
  returns that infinity. Dividing by zero and the other invalid operations give numpy's
  values (an infinity or NaN, with a warning) and never an exception.
\<close>

datatype error = ConfigurationError | InvalidInput | ValueError | IndexError

datatype fval = Finite real | NaN | PosInf | NegInf

definition overflow_bound :: real where
  "overflow_bound = 2 ^ 1024 - 2 ^ 970"

definition fl :: "real \<Rightarrow> fval" where
  \<comment> \<open>The float an operation returns whose exact result is \<open>x\<close>.\<close>
  "fl x = (if overflow_bound \<le> x then PosInf
           else if x \<le> - overflow_bound then NegInf else Finite x)"

fun fneg :: "fval \<Rightarrow> fval" where
  "fneg (Finite x) = Finite (- x)"
| "fneg NaN = NaN"
| "fneg PosInf = NegInf"
| "fneg NegInf = PosInf"

fun fabs :: "fval \<Rightarrow> fval" where
  "fabs (Finite x) = Finite \<bar>x\<bar>"
| "fabs NaN = NaN"
| "fabs PosInf = PosInf"
| "fabs NegInf = PosInf"

fun fadd :: "fval \<Rightarrow> fval \<Rightarrow> fval" where
  "fadd (Finite x) (Finite y) = fl (x + y)"
| "fadd NaN _ = NaN"
| "fadd _ NaN = NaN"
| "fadd PosInf NegInf = NaN"
| "fadd NegInf PosInf = NaN"
| "fadd PosInf _ = PosInf"
| "fadd _ PosInf = PosInf"
| "fadd NegInf _ = NegInf"
| "fadd _ NegInf = NegInf"

definition fsub :: "fval \<Rightarrow> fval \<Rightarrow> fval" where
  "fsub a b = fadd a (fneg b)"

fun fmul :: "fval \<Rightarrow> fval \<Rightarrow> fval" where
  "fmul (Finite x) (Finite y) = fl (x * y)"
| "fmul NaN _ = NaN"
| "fmul _ NaN = NaN"
| "fmul (Finite x) PosInf = (if x = 0 then NaN else if 0 < x then PosInf else NegInf)"
| "fmul (Finite x) NegInf = (if x = 0 then NaN else if 0 < x then NegInf else PosInf)"
| "fmul PosInf (Finite y) = (if y = 0 then NaN else if 0 < y then PosInf else NegInf)"
| "fmul NegInf (Finite y) = (if y = 0 then NaN else if 0 < y then NegInf else PosInf)"
| "fmul PosInf PosInf = PosInf"
| "fmul NegInf NegInf = PosInf"
| "fmul PosInf NegInf = NegInf"
| "fmul NegInf PosInf = NegInf"

fun fdiv :: "fval \<Rightarrow> fval \<Rightarrow> fval" where
  "fdiv (Finite x) (Finite y) =
     (if y \<noteq> 0 then fl (x / y)
      else if x = 0 then NaN
      else if 0 < x then PosInf else NegInf)"
| "fdiv NaN _ = NaN"
| "fdiv _ NaN = NaN"
| "fdiv (Finite x) _ = Finite 0"
| "fdiv PosInf (Finite y) = (if 0 \<le> y then PosInf else NegInf)"
| "fdiv NegInf (Finite y) = (if 0 \<le> y then NegInf else PosInf)"
| "fdiv _ _ = NaN"

fun fsum :: "fval list \<Rightarrow> fval" where
  \<comment> \<open>\<open>np.sum\<close>: the sum of no element is 0.\<close>
  "fsum [] = Finite 0"
| "fsum (x # xs) = fadd x (fsum xs)"

section \<open>Array operations of numpy\<close>

definition then_do :: "error + 'a \<Rightarrow> ('a \<Rightarrow> error + 'b) \<Rightarrow> error + 'b" where
  \<comment> \<open>Sequencing: an exception of the first step ends the computation.\<close>
  "then_do r f = (case r of Inl e \<Rightarrow> Inl e | Inr x \<Rightarrow> f x)"

definition broadcast2 :: "('a \<Rightarrow> 'b \<Rightarrow> 'c) \<Rightarrow> 'a list \<Rightarrow> 'b list \<Rightarrow> error + 'c list" where
  \<comment> \<open>An elementwise operation on two one-dimensional arrays: an array of length 1 is
      stretched to the length of the other, any other pair of different lengths
      raises.\<close>
  "broadcast2 f xs ys =
     (if length xs = length ys then Inr (map2 f xs ys)
      else if length xs = 1 then Inr (map (f (hd xs)) ys)
      else if length ys = 1 then Inr (map (\<lambda>x. f x (hd ys)) xs)
      else Inl ValueError)"

fun select :: "bool list \<Rightarrow> 'a list \<Rightarrow> 'a list" where
  \<comment> \<open>The elements at the true positions of a mask of the array's length.\<close>
  "select (b # bs) (x # xs) = (if b then x # select bs xs else select bs xs)"
| "select _ _ = []"

definition bool_index :: "bool list \<Rightarrow> 'a list \<Rightarrow> error + 'a list" where
  \<comment> \<open>Boolean-mask indexing \<open>a[mask]\<close>: a mask of another length raises, except the
      empty mask, which numpy accepts and which selects nothing.\<close>
  "bool_index msk xs =
     (if length msk = length xs then Inr (select msk xs)
      else if msk = [] then Inr []
      else Inl IndexError)"

section \<open>The symmetric error metric\<close>

definition smape :: "fval list \<Rightarrow> fval list \<Rightarrow> error + fval" where
  "smape preds target =
     (let n = length preds in
      then_do (broadcast2 (\<lambda>p t. \<not> (p = Finite 0 \<and> t = Finite 0)) preds target)
        (\<lambda>masked_arr.
      then_do (bool_index masked_arr preds) (\<lambda>preds'.
      then_do (bool_index masked_arr target) (\<lambda>target'.
      then_do (broadcast2 (\<lambda>p t. fabs (fsub p t)) preds' target') (\<lambda>num.
      then_do (broadcast2 (\<lambda>p t. fadd (fabs p) (fabs t)) preds' target') (\<lambda>denom.
      then_do (broadcast2 fdiv num denom) (\<lambda>ratio.
      Inr (fdiv (fmul (Finite 200) (fsum ratio)) (Finite (real n))))))))))"








section \<open>Calendar days\<close>

text \<open>
  The data has daily granularity: a timestamp is the number of days since 1970-01-01,
  the value pandas keeps for a date, or it is missing (pandas' NaT, \<open>None\<close> here),
  which is what \<open>pd.to_datetime\<close> gives for an empty cell of the file.
  \<open>days_from_civil\<close> is the conversion of a date literal of the script (year, month,
  day of the proleptic Gregorian calendar). A comparison with a missing timestamp is
  false, whichever way it is put.
\<close>

definition days_from_civil :: "int \<Rightarrow> int \<Rightarrow> int \<Rightarrow> int" where
  "days_from_civil y m d =
     (let y' = (if m \<le> 2 then y - 1 else y);
          era = y' div 400;
          yoe = y' - era * 400;
          doy = (153 * ((m + 9) mod 12) + 2) div 5 + d - 1;
          doe = yoe * 365 + yoe div 4 - yoe div 100 + doy
      in era * 146097 + doe - 719468)"

definition date_lt :: "int option \<Rightarrow> int \<Rightarrow> bool" where
  \<comment> \<open>\<open>date < literal\<close>\<close>
  "date_lt d c = (case d of Some x \<Rightarrow> x < c | None \<Rightarrow> False)"

definition date_ge :: "int option \<Rightarrow> int \<Rightarrow> bool" where
  \<comment> \<open>\<open>date >= literal\<close>\<close>
  "date_ge d c = (case d of Some x \<Rightarrow> c \<le> x | None \<Rightarrow> False)"

definition date_isin :: "int option \<Rightarrow> int list \<Rightarrow> bool" where
  \<comment> \<open>\<open>date.isin(literals)\<close>\<close>
  "date_isin d cs = (case d of Some x \<Rightarrow> x \<in> set cs | None \<Rightarrow> False)"

section \<open>The data frame\<close>

text \<open>
  A cell of a derived column is a number or missing (pandas' NaN, \<open>None\<close> here). A
  data frame is the list of its rows, in file order; the columns the script adds are
  kept by name in each row. The date of a row may be missing; every row has a merchant
  and a target, missing values in these two columns are outside the model.
\<close>

type_synonym cell = "real option"

record row =
  merchant_id :: int
  transaction_date :: "int option"
  Total_Transaction :: real
  Total_Paid :: real
  derived :: "string \<rightharpoonup> cell"

type_synonym dataframe = "row list"

definition assign :: "string \<Rightarrow> cell list \<Rightarrow> dataframe \<Rightarrow> dataframe" where
  \<comment> \<open>\<open>dataframe[name] = col\<close>, for a column of the frame's length: an existing column of
      that name is overwritten.\<close>
  "assign name col df = map2 (\<lambda>r v. r\<lparr>derived := (derived r)(name \<mapsto> v)\<rparr>) df col"

definition column :: "string \<Rightarrow> dataframe \<Rightarrow> cell option list" where
  \<comment> \<open>Reading a derived column: \<open>None\<close> where the row has no such column.\<close>
  "column name df = map (\<lambda>r. derived r name) df"

section \<open>Series operations of pandas\<close>

definition shift :: "nat \<Rightarrow> cell list \<Rightarrow> cell list" where
  \<comment> \<open>\<open>x.shift(k)\<close> for \<open>k \<ge> 0\<close>: the value of \<open>k\<close> rows earlier, missing for the first
      \<open>k\<close> rows.\<close>
  "shift k xs = take (length xs) (replicate k None @ xs)"

definition group_values :: "'k list \<Rightarrow> 'a list \<Rightarrow> 'k \<Rightarrow> 'a list" where
  \<comment> \<open>The values of the rows of one group, in row order.\<close>
  "group_values keys xs k = map snd (filter (\<lambda>(k', x). k' = k) (zip keys xs))"

definition group_pos :: "'k list \<Rightarrow> nat \<Rightarrow> nat" where
  \<comment> \<open>The position of row \<open>r\<close> within its own group: the number of earlier rows of
      the same key.\<close>
  "group_pos keys r = length (filter (\<lambda>k'. k' = keys ! r) (take r keys))"

definition group_transform ::
  "('a list \<Rightarrow> 'b list) \<Rightarrow> 'k list \<Rightarrow> 'a list \<Rightarrow> 'b list" where
  \<comment> \<open>\<open>groupby(keys)[col].transform(f)\<close> for a length-preserving \<open>f\<close>: \<open>f\<close> runs on
      each group's own series and every row receives the result at its position in
      its group.\<close>
  "group_transform f keys xs =
     map (\<lambda>r. f (group_values keys xs (keys ! r)) ! group_pos keys r) [0..<length xs]"

definition triang :: "nat \<Rightarrow> real list" where
  \<comment> \<open>The symmetric triangular window of scipy, which \<open>win_type="triang"\<close> selects.\<close>
  "triang M =
     (let n = [1..<(M + 1) div 2 + 1]
      in if M mod 2 = 0
         then (let w = map (\<lambda>k. (2 * real k - 1) / real M) n in w @ rev w)
         else (let w = map (\<lambda>k. 2 * real k / (real M + 1)) n in w @ tl (rev w)))"

definition window_obs :: "real list \<Rightarrow> cell list \<Rightarrow> nat \<Rightarrow> (real \<times> real) list" where
  \<comment> \<open>The (weight, value) pairs of the window that ends at row \<open>j\<close>: the last weight
      meets row \<open>j\<close>, the weight before it row \<open>j - 1\<close>, and so on while rows and
      weights last; missing values are skipped.\<close>
  "window_obs weights xs j =
     List.map_filter
       (\<lambda>d. map_option (\<lambda>v. (weights ! (length weights - 1 - d), v)) (xs ! (j - d)))
       [0..<min (Suc j) (length weights)]"

definition roll_weighted_mean :: "real list \<Rightarrow> nat \<Rightarrow> cell list \<Rightarrow> cell list" where
  \<comment> \<open>\<open>x.rolling(window, min_periods, win_type).mean()\<close>: the weighted mean of the
      observed values of the trailing window, missing with fewer than \<open>min_periods\<close>
      of them. pandas accepts the call only when \<open>min_periods\<close> is at most the window.\<close>
  "roll_weighted_mean weights minp xs =
     map (\<lambda>j. let obs = window_obs weights xs j;
                  tot_wgt = sum_list (map fst obs)
              in if length obs < max minp 1 \<or> tot_wgt = 0 then None
                 else Some (sum_list (map (\<lambda>(w, v). v * w) obs) / tot_wgt))
         [0..<length xs]"

fun ewm_step :: "real \<Rightarrow> cell \<times> real \<Rightarrow> cell \<Rightarrow> cell \<times> real" where
  \<comment> \<open>One step of pandas' exponentially weighted mean (\<open>adjust=True\<close>,
      \<open>ignore_na=False\<close>): the state is the running mean and the weight of the past.\<close>
  "ewm_step alpha (None, old_wt) cur = (cur, old_wt)"
| "ewm_step alpha (Some weighted, old_wt) None = (Some weighted, old_wt * (1 - alpha))"
| "ewm_step alpha (Some weighted, old_wt) (Some cur) =
     (let old_wt' = old_wt * (1 - alpha)
      in (Some (if weighted \<noteq> cur then (old_wt' * weighted + cur) / (old_wt' + 1)
                else weighted),
          old_wt' + 1))"

fun ewm_scan :: "real \<Rightarrow> cell \<times> real \<Rightarrow> cell list \<Rightarrow> cell list" where
  "ewm_scan alpha st [] = []"
| "ewm_scan alpha st (x # xs) =
     (let st' = ewm_step alpha st x in fst st' # ewm_scan alpha st' xs)"

definition ewm_mean :: "real \<Rightarrow> cell list \<Rightarrow> cell list" where
  \<comment> \<open>\<open>x.ewm(alpha=alpha).mean()\<close>, for the smoothing factors pandas accepts
      (\<open>0 < alpha \<le> 1\<close>).\<close>
  "ewm_mean alpha xs = ewm_scan alpha (None, 1) xs"

section \<open>Column names\<close>

definition digit_char :: "nat \<Rightarrow> char" where
  "digit_char d = char_of (48 + d)"

fun str_nat :: "nat \<Rightarrow> string" where
  \<comment> \<open>Python's \<open>str\<close> of a non-negative integer.\<close>
  "str_nat n =
     (if n < 10 then [digit_char n] else str_nat (n div 10) @ [digit_char (n mod 10)])"

declare str_nat.simps [simp del]

definition lag_name :: "nat \<Rightarrow> string" where
  "lag_name lag = ''sales_lag_'' @ str_nat lag"

definition roll_name :: "nat \<Rightarrow> string" where
  "roll_name window = ''sales_roll_mean_'' @ str_nat window"

definition ewm_name :: "(real \<Rightarrow> string) \<Rightarrow> real \<Rightarrow> nat \<Rightarrow> string" where
  \<comment> \<open>\<open>str_float\<close> stands for Python's \<open>str\<close> of a float, which the model takes as
      given; \<open>replace(".", "")\<close> drops the dots of its result.\<close>
  "ewm_name str_float alpha lag =
     ''sales_ewm_alpha_'' @ filter (\<lambda>c. c \<noteq> CHR ''.'') (str_float alpha)
       @ ''_lag_'' @ str_nat lag"

section \<open>The feature builders\<close>

text \<open>
  The random generator is the sequence of standard normal samples it is going to
  return; a draw of \<open>n\<close> samples takes the first \<open>n\<close> and leaves the rest. That the
  samples are Gaussian is not part of the model.
\<close>

type_synonym rng = "nat \<Rightarrow> real"

definition random_noise :: "dataframe \<Rightarrow> rng \<Rightarrow> real list \<times> rng" where
  "random_noise dataframe g =
     (map (\<lambda>i. (16 / 10) * g i) [0..<length dataframe], \<lambda>i. g (i + length dataframe))"

definition add_noise :: "cell list \<Rightarrow> real list \<Rightarrow> cell list" where
  \<comment> \<open>The elementwise sum of a series and an array: missing stays missing.\<close>
  "add_noise xs noise = map2 (\<lambda>c z. map_option (\<lambda>v. v + z) c) xs noise"

definition target_series :: "dataframe \<Rightarrow> cell list" where
  "target_series df = map (\<lambda>r. Some (Total_Transaction r)) df"

definition group_totals :: "dataframe \<Rightarrow> int \<Rightarrow> real list" where
  \<comment> \<open>The target values of the rows of one merchant, in row order.\<close>
  "group_totals df k = map Total_Transaction (filter (\<lambda>r. merchant_id r = k) df)"

definition lag_series :: "dataframe \<Rightarrow> nat \<Rightarrow> cell list" where
  "lag_series df lag =
     group_transform (\<lambda>x. shift lag x) (map merchant_id df) (target_series df)"

fun lag_features :: "dataframe \<Rightarrow> nat list \<Rightarrow> rng \<Rightarrow> dataframe \<times> rng" where
  "lag_features dataframe [] g = (dataframe, g)"
| "lag_features dataframe (lag # lags) g =
     (let (noise, g') = random_noise dataframe g
      in lag_features
           (assign (lag_name lag) (add_noise (lag_series dataframe lag) noise) dataframe)
           lags g')"

definition roll_mean_series :: "dataframe \<Rightarrow> nat \<Rightarrow> cell list" where
  "roll_mean_series df window =
     group_transform (\<lambda>x. roll_weighted_mean (triang window) 10 (shift 1 x))
       (map merchant_id df) (target_series df)"

fun roll_mean_features :: "dataframe \<Rightarrow> nat list \<Rightarrow> rng \<Rightarrow> dataframe \<times> rng" where
  "roll_mean_features dataframe [] g = (dataframe, g)"
| "roll_mean_features dataframe (window # windows) g =
     (let (noise, g') = random_noise dataframe g
      in roll_mean_features
           (assign (roll_name window)
              (add_noise (roll_mean_series dataframe window) noise) dataframe)
           windows g')"

definition ewm_series :: "dataframe \<Rightarrow> real \<Rightarrow> nat \<Rightarrow> cell list" where
  "ewm_series df alpha lag =
     group_transform (\<lambda>x. ewm_mean alpha (shift lag x))
       (map merchant_id df) (target_series df)"

fun ewm_lags :: "(real \<Rightarrow> string) \<Rightarrow> dataframe \<Rightarrow> real \<Rightarrow> nat list \<Rightarrow> dataframe" where
  \<comment> \<open>The inner loop of \<open>ewm_features\<close>, over the lags for one \<open>alpha\<close>.\<close>
  "ewm_lags str_float dataframe alpha [] = dataframe"
| "ewm_lags str_float dataframe alpha (lag # lags) =
     ewm_lags str_float
       (assign (ewm_name str_float alpha lag) (ewm_series dataframe alpha lag) dataframe)
       alpha lags"

fun ewm_features ::
  "(real \<Rightarrow> string) \<Rightarrow> dataframe \<Rightarrow> real list \<Rightarrow> nat list \<Rightarrow> dataframe" where
  "ewm_features str_float dataframe [] lags = dataframe"
| "ewm_features str_float dataframe (alpha # alphas) lags =
     ewm_features str_float (ewm_lags str_float dataframe alpha lags) alphas lags"

text \<open>The lag list of the call of \<open>lag_features\<close>.\<close>

definition lag_spec :: "nat list" where
  "lag_spec =
     [91, 92, 170, 171, 172, 173, 174, 175, 176, 177, 178, 179, 180, 181, 182, 183, 184,
      185, 186, 187, 188, 189, 190,
      350, 351, 352, 352, 354, 355, 356, 357, 358, 359, 360, 361, 362, 363, 364, 365,
      366, 367, 368, 369, 370,
      538, 539, 540, 541, 542,
      718, 719, 720, 721, 722]"

text \<open>
  The data runs from 2018-01-01 to 2020-12-31. \<open>daily_frame n\<close> is the frame of one
  merchant with a row for each of the first \<open>n\<close> days of that range, the row of day
  number \<open>d\<close> with the target \<open>d\<close>.
\<close>

definition daily_frame :: "nat \<Rightarrow> dataframe" where
  "daily_frame n =
     map (\<lambda>d. \<lparr>merchant_id = 1, transaction_date = Some (days_from_civil 2018 1 1 + int d),
                 Total_Transaction = real d, Total_Paid = 0, derived = Map.empty\<rparr>)
       [0..<n]"

text \<open>
  \<open>merchant_rows m ts\<close> are the rows of the merchant \<open>m\<close> with the targets \<open>ts\<close> on
  consecutive days from 2018-01-01 on.
\<close>

definition merchant_rows :: "int \<Rightarrow> real list \<Rightarrow> dataframe" where
  "merchant_rows m ts =
     map (\<lambda>(d, t). \<lparr>merchant_id = m,
                      transaction_date = Some (days_from_civil 2018 1 1 + int d),
                      Total_Transaction = t, Total_Paid = 0, derived = Map.empty\<rparr>)
       (zip [0..<length ts] ts)"

section \<open>The solstice indicator\<close>

definition solstice_dates :: "int list" where
  "solstice_dates =
     [days_from_civil 2018 6 19, days_from_civil 2018 6 20, days_from_civil 2018 6 21,
      days_from_civil 2018 6 22,
      days_from_civil 2019 6 19, days_from_civil 2019 6 20, days_from_civil 2019 6 21,
      days_from_civil 2019 6 22]"

definition is_summer_solstice :: "row \<Rightarrow> cell" where
  \<comment> \<open>The column is set to 0 and then to 1 on the rows whose date is in the list.\<close>
  "is_summer_solstice r =
     Some (if date_isin (transaction_date r) solstice_dates then 1 else 0)"

definition add_summer_solstice :: "dataframe \<Rightarrow> dataframe" where
  "add_summer_solstice df = assign ''is_summer_solstice'' (map is_summer_solstice df) df"

text \<open>
  The window of the specification: the days at most three days away from the solstice
  date.
\<close>

definition solstice_window_spec :: "int \<Rightarrow> int \<Rightarrow> bool" where
  "solstice_window_spec solstice d = (\<bar>d - solstice\<bar> \<le> 3)"

section \<open>The transform of the target\<close>

definition np_log1p :: "real \<Rightarrow> fval" where
  \<comment> \<open>numpy's \<open>log1p\<close>: below -1 the result is NaN and at -1 it is -inf, with a warning
      and no exception.\<close>
  "np_log1p x = (if -1 < x then Finite (ln (1 + x)) else if x = -1 then NegInf else NaN)"

definition log_transform :: "real list \<Rightarrow> error + fval list" where
  \<comment> \<open>\<open>np.log1p(df["Total_Transaction"].values)\<close>: no value is checked before.\<close>
  "log_transform xs = Inr (map np_log1p xs)"

section \<open>The time-based split\<close>

definition cutoff :: int where
  "cutoff = days_from_civil 2020 10 1"

definition train :: "dataframe \<Rightarrow> dataframe" where
  "train df = filter (\<lambda>r. date_lt (transaction_date r) cutoff) df"

definition val :: "dataframe \<Rightarrow> dataframe" where
  "val df = filter (\<lambda>r. date_ge (transaction_date r) cutoff) df"

section \<open>Properties of the float operations\<close>

lemma overflow_bound_gt: "200 * 2 ^ 63 < overflow_bound"
  by (simp add: overflow_bound_def)

lemma fl_Finite: "- overflow_bound < x \<Longrightarrow> x < overflow_bound \<Longrightarrow> fl x = Finite x"
  by (simp add: fl_def)


lemma fl_moderate: "\<bar>x\<bar> \<le> 200 * 2 ^ 63 \<Longrightarrow> fl x = Finite x"
  using overflow_bound_gt by (intro fl_Finite) simp_all






section \<open>Properties of the metric\<close>





















text \<open>
  Claim C9, as stated: on empty input the metric fails with a ConfigurationError. The
  code has no such check; the statement fails at the empty sequences.
\<close>

theorem smape_empty_no_error: "smape [] [] \<noteq> Inl ConfigurationError"
  by (simp add: smape_def then_do_def broadcast2_def bool_index_def)

text \<open>
  Claim C9, amended. On empty input the metric raises no error: the sum over no
  position is 0, the division of 0 by the length 0 is carried out, and the result is
  NaN.
\<close>

theorem smape_empty_is_nan: "smape [] [] = Inr NaN"
  by (simp add: smape_def then_do_def broadcast2_def bool_index_def fl_moderate)

section \<open>Properties of the split\<close>

text \<open>
  Claim C2, as stated: the train set and the validation set together contain every
  input row. A row whose date is missing fails both comparisons with the cutoff and is
  in neither set.
\<close>

theorem time_split_missing_date_counterexample:
  "train [\<lparr>merchant_id = 1, transaction_date = None, Total_Transaction = 5,
           Total_Paid = 10, derived = Map.empty\<rparr>] = []
   \<and> val [\<lparr>merchant_id = 1, transaction_date = None, Total_Transaction = 5,
           Total_Paid = 10, derived = Map.empty\<rparr>] = []"
  by (simp add: train_def val_def date_lt_def date_ge_def)

text \<open>
  Claim C2, amended. For every input dataset and the cutoff 2020-10-01, the train set
  and the validation set are disjoint, every train row is dated strictly before the
  cutoff and every validation row on or after it, and together the two sets contain
  exactly the input rows that have a date, each as often as it occurs in the input: a
  row whose date is missing is in neither set. When no date is missing, they contain
  every input row.
\<close>

theorem time_split_partitions:
  "mset (train df) + mset (val df) = mset (filter (\<lambda>r. transaction_date r \<noteq> None) df)
   \<and> ((\<forall>r \<in> set df. transaction_date r \<noteq> None) \<longrightarrow>
        mset (train df) + mset (val df) = mset df)
   \<and> set (train df) \<inter> set (val df) = {}
   \<and> (\<forall>r \<in> set (train df). \<exists>d. transaction_date r = Some d \<and> d < cutoff)
   \<and> (\<forall>r \<in> set (val df). \<exists>d. transaction_date r = Some d \<and> cutoff \<le> d)
   \<and> cutoff = days_from_civil 2020 10 1"
proof -
  have a: "mset (train df) + mset (val df)
           = mset (filter (\<lambda>r. transaction_date r \<noteq> None) df)"
    unfolding train_def val_def
    by (induction df) (auto simp: date_lt_def date_ge_def split: option.splits)
  have b: "(\<forall>r \<in> set df. transaction_date r \<noteq> None) \<longrightarrow>
        mset (train df) + mset (val df) = mset df"
  proof
    assume "\<forall>r \<in> set df. transaction_date r \<noteq> None"
    then have "filter (\<lambda>r. transaction_date r \<noteq> None) df = df"
      unfolding filter_id_conv .
    then show "mset (train df) + mset (val df) = mset df"
      unfolding a by (rule arg_cong)
  qed
  have c: "set (train df) \<inter> set (val df) = {}"
    by (auto simp: train_def val_def date_lt_def date_ge_def split: option.splits)
  have d: "\<forall>r \<in> set (train df). \<exists>d. transaction_date r = Some d \<and> d < cutoff"
    by (auto simp: train_def date_lt_def split: option.splits)
  have e: "\<forall>r \<in> set (val df). \<exists>d. transaction_date r = Some d \<and> cutoff \<le> d"
    by (auto simp: val_def date_ge_def split: option.splits)
  from a b c d e show ?thesis by (simp add: cutoff_def)
qed

theorem time_split_partitions_witness:
  "train [\<lparr>merchant_id = 1, transaction_date = Some (days_from_civil 2020 9 30),
            Total_Transaction = 5, Total_Paid = 10, derived = Map.empty\<rparr>,
          \<lparr>merchant_id = 1, transaction_date = Some (days_from_civil 2020 10 1),
            Total_Transaction = 6, Total_Paid = 12, derived = Map.empty\<rparr>,
          \<lparr>merchant_id = 1, transaction_date = None,
            Total_Transaction = 7, Total_Paid = 14, derived = Map.empty\<rparr>]
     = [\<lparr>merchant_id = 1, transaction_date = Some (days_from_civil 2020 9 30),
            Total_Transaction = 5, Total_Paid = 10, derived = Map.empty\<rparr>]
   \<and> val [\<lparr>merchant_id = 1, transaction_date = Some (days_from_civil 2020 9 30),
            Total_Transaction = 5, Total_Paid = 10, derived = Map.empty\<rparr>,
          \<lparr>merchant_id = 1, transaction_date = Some (days_from_civil 2020 10 1),
            Total_Transaction = 6, Total_Paid = 12, derived = Map.empty\<rparr>,
          \<lparr>merchant_id = 1, transaction_date = None,
            Total_Transaction = 7, Total_Paid = 14, derived = Map.empty\<rparr>]
     = [\<lparr>merchant_id = 1, transaction_date = Some (days_from_civil 2020 10 1),
            Total_Transaction = 6, Total_Paid = 12, derived = Map.empty\<rparr>]
   \<and> days_from_civil 2020 9 30 < cutoff
   \<and> cutoff \<le> days_from_civil 2020 10 1"
proof -
  let ?r1 = "\<lparr>merchant_id = 1, transaction_date = Some (days_from_civil 2020 9 30),
            Total_Transaction = 5, Total_Paid = 10, derived = Map.empty\<rparr>"
  let ?r2 = "\<lparr>merchant_id = 1, transaction_date = Some (days_from_civil 2020 10 1),
            Total_Transaction = 6, Total_Paid = 12, derived = Map.empty\<rparr>"
  let ?r3 = "\<lparr>merchant_id = 1, transaction_date = None,
            Total_Transaction = 7, Total_Paid = 14, derived = Map.empty\<rparr>"
  have a: "train [?r1, ?r2, ?r3] = [?r1]"
    by (simp add: train_def date_lt_def cutoff_def days_from_civil_def)
  have b: "val [?r1, ?r2, ?r3] = [?r2]"
    by (simp add: val_def date_ge_def cutoff_def days_from_civil_def)
  have "\<forall>r \<in> set [?r1]. \<exists>d. transaction_date r = Some d \<and> d < cutoff"
    using time_split_partitions [of "[?r1, ?r2, ?r3]"] unfolding a by blast
  then have c: "days_from_civil 2020 9 30 < cutoff" by simp
  have "\<forall>r \<in> set [?r2]. \<exists>d. transaction_date r = Some d \<and> cutoff \<le> d"
    using time_split_partitions [of "[?r1, ?r2, ?r3]"] unfolding b by blast
  then have d: "cutoff \<le> days_from_civil 2020 10 1" by simp
  from a b c d show ?thesis by blast
qed

section \<open>Properties of column assignment\<close>

lemma length_assign [simp]: "length (assign name col df) = min (length df) (length col)"
  by (simp add: assign_def)

lemma assign_keeps_merchant_id [simp]:
  "length col = length df \<Longrightarrow> map merchant_id (assign name col df) = map merchant_id df"
  by (rule nth_equalityI) (simp_all add: assign_def)

lemma assign_keeps_target [simp]:
  "length col = length df \<Longrightarrow>
   map Total_Transaction (assign name col df) = map Total_Transaction df"
  by (rule nth_equalityI) (simp_all add: assign_def)

lemma column_assign_same:
  "length col = length df \<Longrightarrow> column name (assign name col df) = map Some col"
  by (rule nth_equalityI) (simp_all add: assign_def column_def)

lemma column_assign_other:
  "name' \<noteq> name \<Longrightarrow> length col = length df \<Longrightarrow>
   column name' (assign name col df) = column name' df"
  by (rule nth_equalityI) (simp_all add: assign_def column_def)

section \<open>Properties of the solstice indicator\<close>

text \<open>
  Claim C8, as stated: the indicator is 1 exactly on the seven days at most three days
  away from the solstice of the row's year, for each year of the data. It fails on
  2018-06-18, three days before the solstice of 2018-06-21, and on 2020-06-21, which is
  within a day of the solstice of 2020 (06-20): the indicator is 0 on both.
\<close>

theorem solstice_window_counterexample:
  "solstice_window_spec (days_from_civil 2018 6 21) (days_from_civil 2018 6 18)
   \<and> is_summer_solstice \<lparr>merchant_id = 1, transaction_date = Some (days_from_civil 2018 6 18),
        Total_Transaction = 5, Total_Paid = 10, derived = Map.empty\<rparr> = Some 0
   \<and> solstice_window_spec (days_from_civil 2020 6 20) (days_from_civil 2020 6 21)
   \<and> solstice_window_spec (days_from_civil 2020 6 21) (days_from_civil 2020 6 21)
   \<and> is_summer_solstice \<lparr>merchant_id = 1, transaction_date = Some (days_from_civil 2020 6 21),
        Total_Transaction = 5, Total_Paid = 10, derived = Map.empty\<rparr> = Some 0"
  by (simp add: solstice_window_spec_def is_summer_solstice_def date_isin_def
      solstice_dates_def days_from_civil_def)

text \<open>
  Claim C8, amended. For every row of the dataset, the indicator is 1 exactly when the
  date of the row is one of the four days from June 19 to June 22, both included, of
  2018 or of 2019, and 0 otherwise: so it is 0 on every row of 2020 and on every row
  whose date is missing.
\<close>

theorem solstice_indicator_listed_dates:
  assumes "i < length df"
  shows "column ''is_summer_solstice'' (add_summer_solstice df) ! i
         = Some (Some (case transaction_date (df ! i) of
                         None \<Rightarrow> 0
                       | Some d \<Rightarrow>
                           if (days_from_civil 2018 6 19 \<le> d \<and> d \<le> days_from_civil 2018 6 22)
                              \<or> (days_from_civil 2019 6 19 \<le> d \<and> d \<le> days_from_civil 2019 6 22)
                           then 1 else 0))"
proof -
  have "column ''is_summer_solstice'' (add_summer_solstice df) ! i
        = Some (is_summer_solstice (df ! i))"
    using assms by (simp add: add_summer_solstice_def column_assign_same)
  moreover have "is_summer_solstice (df ! i)
        = Some (case transaction_date (df ! i) of
                  None \<Rightarrow> 0
                | Some d \<Rightarrow>
                    if (days_from_civil 2018 6 19 \<le> d \<and> d \<le> days_from_civil 2018 6 22)
                       \<or> (days_from_civil 2019 6 19 \<le> d \<and> d \<le> days_from_civil 2019 6 22)
                    then 1 else 0)"
    by (auto simp: is_summer_solstice_def date_isin_def solstice_dates_def
        days_from_civil_def split: option.splits)
  ultimately show ?thesis by simp
qed

theorem solstice_indicator_listed_dates_witness:
  "column ''is_summer_solstice''
     (add_summer_solstice
        [\<lparr>merchant_id = 1, transaction_date = Some (days_from_civil 2019 6 22),
          Total_Transaction = 5, Total_Paid = 10, derived = Map.empty\<rparr>,
         \<lparr>merchant_id = 1, transaction_date = Some (days_from_civil 2019 6 23),
          Total_Transaction = 6, Total_Paid = 12, derived = Map.empty\<rparr>,
         \<lparr>merchant_id = 1, transaction_date = Some (days_from_civil 2020 6 21),
          Total_Transaction = 7, Total_Paid = 14, derived = Map.empty\<rparr>]) ! 0
   = Some (Some 1)
   \<and> column ''is_summer_solstice''
     (add_summer_solstice
        [\<lparr>merchant_id = 1, transaction_date = Some (days_from_civil 2019 6 22),
          Total_Transaction = 5, Total_Paid = 10, derived = Map.empty\<rparr>,
         \<lparr>merchant_id = 1, transaction_date = Some (days_from_civil 2019 6 23),
          Total_Transaction = 6, Total_Paid = 12, derived = Map.empty\<rparr>,
         \<lparr>merchant_id = 1, transaction_date = Some (days_from_civil 2020 6 21),
          Total_Transaction = 7, Total_Paid = 14, derived = Map.empty\<rparr>]) ! 1
   = Some (Some 0)
   \<and> column ''is_summer_solstice''
     (add_summer_solstice
        [\<lparr>merchant_id = 1, transaction_date = Some (days_from_civil 2019 6 22),
          Total_Transaction = 5, Total_Paid = 10, derived = Map.empty\<rparr>,
         \<lparr>merchant_id = 1, transaction_date = Some (days_from_civil 2019 6 23),
          Total_Transaction = 6, Total_Paid = 12, derived = Map.empty\<rparr>,
         \<lparr>merchant_id = 1, transaction_date = Some (days_from_civil 2020 6 21),
          Total_Transaction = 7, Total_Paid = 14, derived = Map.empty\<rparr>]) ! 2
   = Some (Some 0)"
proof -
  let ?df = "[\<lparr>merchant_id = 1, transaction_date = Some (days_from_civil 2019 6 22),
          Total_Transaction = 5, Total_Paid = 10, derived = Map.empty\<rparr>,
         \<lparr>merchant_id = 1, transaction_date = Some (days_from_civil 2019 6 23),
          Total_Transaction = 6, Total_Paid = 12, derived = Map.empty\<rparr>,
         \<lparr>merchant_id = 1, transaction_date = Some (days_from_civil 2020 6 21),
          Total_Transaction = 7, Total_Paid = 14, derived = Map.empty\<rparr>]"
  have l0: "0 < length ?df" and l1: "1 < length ?df" and l2: "2 < length ?df" by simp_all
  have "column ''is_summer_solstice'' (add_summer_solstice ?df) ! 0 = Some (Some 1)"
    using solstice_indicator_listed_dates [OF l0]
    by (simp add: days_from_civil_def)
  moreover have "column ''is_summer_solstice'' (add_summer_solstice ?df) ! 1 = Some (Some 0)"
    using solstice_indicator_listed_dates [OF l1]
    by (simp add: days_from_civil_def)
  moreover have "column ''is_summer_solstice'' (add_summer_solstice ?df) ! 2 = Some (Some 0)"
    using solstice_indicator_listed_dates [OF l2]
    by (simp add: days_from_civil_def)
  ultimately show ?thesis by blast
qed

section \<open>Properties of the transform of the target\<close>

text \<open>
  Claim C10, as stated: a negative target value makes the pipeline fail with
  InvalidInput before the transform. The code checks nothing: on the target \<open>[-2]\<close> the
  transform is carried out and gives NaN.
\<close>

theorem log_transform_negative_no_error:
  "log_transform [-2] \<noteq> Inl InvalidInput \<and> log_transform [-2] = Inr [NaN]"
  by (simp add: log_transform_def np_log1p_def)

text \<open>
  Claim C10, amended. The transform is applied to every target value without a check
  and never fails: a value above -1, so every non-negative value, is sent to
  \<open>ln (1 + x)\<close>, the value -1 to -inf and a value below -1 to NaN.
\<close>

theorem log_transform_unchecked:
  "\<exists>ys. log_transform xs = Inr ys \<and> length ys = length xs
        \<and> (\<forall>i<length xs. ys ! i =
              (if -1 < xs ! i then Finite (ln (1 + xs ! i))
               else if xs ! i = -1 then NegInf else NaN))"
  by (simp add: log_transform_def np_log1p_def)

theorem log_transform_unchecked_witness:
  "\<exists>ys. log_transform [0, -2] = Inr ys \<and> length ys = 2
        \<and> ys ! 0 = Finite 0 \<and> ys ! 1 = NaN"
  using log_transform_unchecked [of "[0, -2]"] by (auto simp: less_Suc_eq)

section \<open>Properties of the column names\<close>

lemma str_nat_nonempty: "str_nat n \<noteq> []"
  by (subst str_nat.simps) simp

lemma digit_char_inj:
  assumes "a < 10" and "b < 10" and "digit_char a = digit_char b"
  shows "a = b"
proof -
  have "(48 + a) mod 256 = (48 + b) mod 256"
    using assms(3) by (simp add: digit_char_def char_of_eq_iff take_bit_eq_mod)
  moreover have "(48 + a) mod 256 = 48 + a" using assms(1) by simp
  moreover have "(48 + b) mod 256 = 48 + b" using assms(2) by simp
  ultimately show ?thesis by simp
qed

lemma str_nat_inj: "str_nat m = str_nat n \<Longrightarrow> m = n"
proof (induction m arbitrary: n rule: str_nat.induct)
  case (1 m)
  show ?case
  proof (cases "m < 10")
    case True
    then have m: "str_nat m = [digit_char m]" by (subst str_nat.simps) simp
    have "n < 10"
    proof (rule ccontr)
      assume "\<not> n < 10"
      then have "str_nat n = str_nat (n div 10) @ [digit_char (n mod 10)]"
        by (subst str_nat.simps) simp
      then show False using m "1.prems" str_nat_nonempty [of "n div 10"] by simp
    qed
    then have "str_nat n = [digit_char n]" by (subst str_nat.simps) simp
    then show ?thesis using m "1.prems" True \<open>n < 10\<close> digit_char_inj by simp
  next
    case False
    then have m: "str_nat m = str_nat (m div 10) @ [digit_char (m mod 10)]"
      by (subst str_nat.simps) simp
    have n10: "\<not> n < 10"
    proof
      assume "n < 10"
      then have "str_nat n = [digit_char n]" by (subst str_nat.simps) simp
      then show False using m "1.prems" str_nat_nonempty [of "m div 10"] by simp
    qed
    then have n: "str_nat n = str_nat (n div 10) @ [digit_char (n mod 10)]"
      by (subst str_nat.simps) simp
    from m n "1.prems" have eq: "str_nat (m div 10) = str_nat (n div 10)"
      and d: "digit_char (m mod 10) = digit_char (n mod 10)" by simp_all
    have "m div 10 = n div 10" using "1.IH" [OF False eq] .
    moreover have "m mod 10 = n mod 10" using d by (intro digit_char_inj) simp_all
    ultimately show ?thesis by (metis div_mult_mod_eq)
  qed
qed

lemma lag_name_inj: "lag_name a = lag_name b \<Longrightarrow> a = b"
  by (simp add: lag_name_def str_nat_inj)

lemma roll_name_inj: "roll_name a = roll_name b \<Longrightarrow> a = b"
  by (simp add: roll_name_def str_nat_inj)

section \<open>Properties of the series operations\<close>

lemma length_shift [simp]: "length (shift k xs) = length xs"
  by (simp add: shift_def)

lemma nth_shift:
  "i < length xs \<Longrightarrow> shift k xs ! i = (if k \<le> i then xs ! (i - k) else None)"
  by (simp add: shift_def nth_append)

lemma take_shift:
  "n \<le> length xs \<Longrightarrow> take n (shift k xs) = take n (replicate k None @ take (n - k) xs)"
  by (simp add: shift_def min_def)

lemma length_group_transform [simp]: "length (group_transform f keys xs) = length xs"
  by (simp add: group_transform_def)

lemma nth_group_transform:
  "r < length xs \<Longrightarrow>
   group_transform f keys xs ! r = f (group_values keys xs (keys ! r)) ! group_pos keys r"
  by (simp add: group_transform_def)

lemma group_values_append:
  "length ks = length xs \<Longrightarrow>
   group_values (ks @ ks') (xs @ xs') k = group_values ks xs k @ group_values ks' xs' k"
  by (simp add: group_values_def)

lemma length_group_values:
  "length ks = length xs \<Longrightarrow>
   length (group_values ks xs k) = length (filter (\<lambda>k'. k' = k) ks)"
proof (induction ks xs rule: list_induct2)
  case Nil
  show ?case by (simp add: group_values_def)
next
  case (Cons a ks x xs)
  then show ?case by (simp add: group_values_def)
qed

lemma group_values_split:
  assumes "r < length keys" and "length xs = length keys"
  shows "group_values keys xs (keys ! r)
         = group_values (take r keys) (take r xs) (keys ! r) @ xs ! r
             # group_values (drop (Suc r) keys) (drop (Suc r) xs) (keys ! r)"
proof -
  have k: "keys = take r keys @ keys ! r # drop (Suc r) keys"
    using assms(1) by (simp add: id_take_nth_drop)
  have x: "xs = take r xs @ xs ! r # drop (Suc r) xs"
    using assms by (simp add: id_take_nth_drop)
  have "group_values keys xs (keys ! r)
        = group_values (take r keys @ keys ! r # drop (Suc r) keys)
            (take r xs @ xs ! r # drop (Suc r) xs) (keys ! r)"
    using k x by simp
  also have "\<dots> = group_values (take r keys) (take r xs) (keys ! r)
        @ group_values (keys ! r # drop (Suc r) keys) (xs ! r # drop (Suc r) xs) (keys ! r)"
    using assms by (intro group_values_append) simp
  also have "group_values (keys ! r # drop (Suc r) keys) (xs ! r # drop (Suc r) xs) (keys ! r)
        = xs ! r # group_values (drop (Suc r) keys) (drop (Suc r) xs) (keys ! r)"
    by (simp add: group_values_def)
  finally show ?thesis .
qed

lemma group_pos_length:
  assumes "r < length keys" and "length xs = length keys"
  shows "length (group_values (take r keys) (take r xs) (keys ! r)) = group_pos keys r"
  using assms by (simp add: length_group_values group_pos_def)

lemma group_pos_less:
  assumes "r < length keys" and "length xs = length keys"
  shows "group_pos keys r < length (group_values keys xs (keys ! r))"
  using group_values_split [OF assms] group_pos_length [OF assms] by simp

lemma group_values_at_pos:
  assumes "r < length keys" and "length xs = length keys"
  shows "group_values keys xs (keys ! r) ! group_pos keys r = xs ! r"
  using group_values_split [OF assms] group_pos_length [OF assms]
  by (simp add: nth_append)

lemma group_values_targets:
  "group_values (map merchant_id df) (target_series df) k = map Some (group_totals df k)"
  by (induction df) (simp_all add: group_values_def target_series_def group_totals_def)

section \<open>Properties of the lag features\<close>

lemma length_target_series [simp]: "length (target_series df) = length df"
  by (simp add: target_series_def)

lemma target_series_assign [simp]:
  "length col = length df \<Longrightarrow> target_series (assign name col df) = target_series df"
  by (rule nth_equalityI) (simp_all add: assign_def target_series_def)

lemma length_random_noise [simp]: "length (fst (random_noise df g)) = length df"
  by (simp add: random_noise_def)

lemma length_add_noise [simp]:
  "length (add_noise xs noise) = min (length xs) (length noise)"
  by (simp add: add_noise_def)

lemma nth_add_noise:
  "i < length xs \<Longrightarrow> i < length noise \<Longrightarrow>
   add_noise xs noise ! i = map_option (\<lambda>v. v + noise ! i) (xs ! i)"
  by (simp add: add_noise_def)

lemma length_lag_series [simp]: "length (lag_series df lag) = length df"
  by (simp add: lag_series_def)

lemma lag_series_assign [simp]:
  "length col = length df \<Longrightarrow> lag_series (assign name col df) lag = lag_series df lag"
  by (simp add: lag_series_def)

lemma lag_features_step:
  "lag_features df (lag # lags) g
   = lag_features
       (assign (lag_name lag) (add_noise (lag_series df lag) (fst (random_noise df g))) df)
       lags (snd (random_noise df g))"
  by (simp add: split_def Let_def)

lemma lag_features_other_column:
  "name \<notin> lag_name ` set lags \<Longrightarrow>
   column name (fst (lag_features df lags g)) = column name df"
proof (induction lags arbitrary: df g)
  case Nil
  show ?case by simp
next
  case (Cons lag lags)
  from Cons.prems have a: "name \<noteq> lag_name lag" and b: "name \<notin> lag_name ` set lags"
    by auto
  show ?case
    unfolding lag_features_step Cons.IH [OF b]
    using a by (simp add: column_assign_other)
qed

lemma lag_features_last_write:
  "L \<notin> set zs \<Longrightarrow>
   column (lag_name L) (fst (lag_features df (ys @ L # zs) g))
   = map Some (add_noise (lag_series df L)
       (map (\<lambda>i. (16 / 10) * g (i + length ys * length df)) [0..<length df]))"
proof (induction ys arbitrary: df g)
  case Nil
  then have n: "lag_name L \<notin> lag_name ` set zs"
    using lag_name_inj by blast
  have "column (lag_name L) (fst (lag_features df ([] @ L # zs) g))
        = map Some (add_noise (lag_series df L) (fst (random_noise df g)))"
    unfolding append_Nil lag_features_step lag_features_other_column [OF n]
    by (simp add: column_assign_same)
  also have "fst (random_noise df g)
        = map (\<lambda>i. (16 / 10) * g (i + length ([]::nat list) * length df)) [0..<length df]"
    by (simp add: random_noise_def)
  finally show ?case .
next
  case (Cons y ys)
  let ?df = "assign (lag_name y) (add_noise (lag_series df y) (fst (random_noise df g))) df"
  have len: "length ?df = length df" by simp
  have "column (lag_name L) (fst (lag_features df ((y # ys) @ L # zs) g))
        = column (lag_name L) (fst (lag_features ?df (ys @ L # zs) (snd (random_noise df g))))"
    unfolding append_Cons lag_features_step ..
  also have "\<dots> = map Some (add_noise (lag_series ?df L)
       (map (\<lambda>i. (16 / 10) * snd (random_noise df g) (i + length ys * length ?df))
          [0..<length ?df]))"
    using Cons.IH [OF Cons.prems] .
  also have "lag_series ?df L = lag_series df L" by simp
  also have "(map (\<lambda>i. (16 / 10) * snd (random_noise df g) (i + length ys * length ?df))
          [0..<length ?df])
     = map (\<lambda>i. (16 / 10) * g (i + length (y # ys) * length df)) [0..<length df]"
    unfolding len by (simp add: random_noise_def ac_simps)
  finally show ?case .
qed

lemma nth_lag_series:
  assumes "r < length df"
  shows "lag_series df L ! r
         = (if L \<le> group_pos (map merchant_id df) r
            then Some (group_totals df (merchant_id (df ! r))
                         ! (group_pos (map merchant_id df) r - L))
            else None)"
proof -
  let ?keys = "map merchant_id df"
  let ?i = "group_pos ?keys r"
  let ?k = "merchant_id (df ! r)"
  have k: "?keys ! r = ?k" using assms by simp
  have i: "?i < length (group_totals df ?k)"
    using group_pos_less [of r ?keys "target_series df"] assms
    by (simp add: group_values_targets)
  have "lag_series df L ! r = shift L (map Some (group_totals df ?k)) ! ?i"
    using assms k by (simp add: lag_series_def nth_group_transform group_values_targets)
  also have "\<dots> = (if L \<le> ?i then Some (group_totals df ?k ! (?i - L)) else None)"
    using i by (simp add: nth_shift)
  finally show ?thesis .
qed

lemma group_totals_at_pos:
  assumes "r < length df"
  shows "group_pos (map merchant_id df) r < length (group_totals df (merchant_id (df ! r)))
         \<and> group_totals df (merchant_id (df ! r)) ! group_pos (map merchant_id df) r
             = Total_Transaction (df ! r)"
proof -
  let ?keys = "map merchant_id df"
  have i: "group_pos ?keys r < length (group_values ?keys (target_series df) (?keys ! r))"
    using assms by (intro group_pos_less) simp_all
  have v: "group_values ?keys (target_series df) (?keys ! r) ! group_pos ?keys r
           = target_series df ! r"
    using assms by (intro group_values_at_pos) simp_all
  from i v assms show ?thesis
    by (simp add: group_values_targets) (simp add: target_series_def)
qed

text \<open>
  Claim C3. Let \<open>L\<close> be a lag of the lag list, at a place after which it does not occur
  again (the place whose column is the one left in the frame), and let a row be at
  position \<open>i\<close> of its merchant's group. The column \<open>sales_lag_L\<close> of the row is missing
  when \<open>i < L\<close>, that is for the first \<open>L\<close> rows of the group; otherwise it is the target
  of the group's row at position \<open>i - L\<close> plus the row's own noise, which is 1.6 times
  the sample of the generator drawn for this column and this row.
\<close>

theorem lag_feature_value:
  assumes "lags = ys @ L # zs" and "L \<notin> set zs" and "r < length df"
    and "k = merchant_id (df ! r)" and "i = group_pos (map merchant_id df) r"
  shows "i < length (group_totals df k)
       \<and> group_totals df k ! i = Total_Transaction (df ! r)
       \<and> column (lag_name L) (fst (lag_features df lags g)) ! r
           = Some (if L \<le> i
                   then Some (group_totals df k ! (i - L)
                              + (16 / 10) * g (r + length ys * length df))
                   else None)"
proof -
  have "column (lag_name L) (fst (lag_features df lags g)) ! r
        = Some (add_noise (lag_series df L)
             (map (\<lambda>i. (16 / 10) * g (i + length ys * length df)) [0..<length df]) ! r)"
    using assms(3) unfolding assms(1) lag_features_last_write [OF assms(2)] by simp
  also have "add_noise (lag_series df L)
             (map (\<lambda>i. (16 / 10) * g (i + length ys * length df)) [0..<length df]) ! r
        = map_option (\<lambda>v. v + (16 / 10) * g (r + length ys * length df)) (lag_series df L ! r)"
    using assms(3) by (simp add: nth_add_noise)
  also have "\<dots> = (if L \<le> i
                   then Some (group_totals df k ! (i - L)
                              + (16 / 10) * g (r + length ys * length df))
                   else None)"
    using assms(3) by (simp add: nth_lag_series assms(4,5))
  finally show ?thesis using group_totals_at_pos [OF assms(3)] assms(4,5) by simp
qed

theorem lag_feature_value_witness:
  "column (lag_name 1)
     (fst (lag_features
        [\<lparr>merchant_id = 1, transaction_date = Some 0, Total_Transaction = 5, Total_Paid = 0,
          derived = Map.empty\<rparr>,
         \<lparr>merchant_id = 2, transaction_date = Some 0, Total_Transaction = 6, Total_Paid = 0,
          derived = Map.empty\<rparr>,
         \<lparr>merchant_id = 1, transaction_date = Some 1, Total_Transaction = 7, Total_Paid = 0,
          derived = Map.empty\<rparr>]
        [1] (\<lambda>i. real i))) ! 2
   = Some (Some (41 / 5))
   \<and> column (lag_name 1)
     (fst (lag_features
        [\<lparr>merchant_id = 1, transaction_date = Some 0, Total_Transaction = 5, Total_Paid = 0,
          derived = Map.empty\<rparr>,
         \<lparr>merchant_id = 2, transaction_date = Some 0, Total_Transaction = 6, Total_Paid = 0,
          derived = Map.empty\<rparr>,
         \<lparr>merchant_id = 1, transaction_date = Some 1, Total_Transaction = 7, Total_Paid = 0,
          derived = Map.empty\<rparr>]
        [1] (\<lambda>i. real i))) ! 1
   = Some None"
proof -
  let ?df = "[\<lparr>merchant_id = 1, transaction_date = Some 0, Total_Transaction = 5, Total_Paid = 0,
          derived = Map.empty\<rparr>,
         \<lparr>merchant_id = 2, transaction_date = Some 0, Total_Transaction = 6, Total_Paid = 0,
          derived = Map.empty\<rparr>,
         \<lparr>merchant_id = 1, transaction_date = Some 1, Total_Transaction = 7, Total_Paid = 0,
          derived = Map.empty\<rparr>]"
  have l: "[1] = [] @ (1::nat) # []" and n: "(1::nat) \<notin> set []" by simp_all
  have r2: "2 < length ?df" and r1: "1 < length ?df" by simp_all
  have k2: "1 = merchant_id (?df ! 2)" and k1: "2 = merchant_id (?df ! 1)" by simp_all
  have i2: "1 = group_pos (map merchant_id ?df) 2"
    and i1: "0 = group_pos (map merchant_id ?df) 1"
    by (simp_all add: group_pos_def numeral_2_eq_2)
  have "column (lag_name 1) (fst (lag_features ?df [1] (\<lambda>i. real i))) ! 2
        = Some (Some (41 / 5))"
    using lag_feature_value [OF l n r2 k2 i2, of "\<lambda>i. real i"]
    by (simp add: group_totals_def)
  moreover have "column (lag_name 1) (fst (lag_features ?df [1] (\<lambda>i. real i))) ! 1
        = Some None"
    using lag_feature_value [OF l n r1 k1 i1, of "\<lambda>i. real i"]
    by simp
  ultimately show ?thesis by blast
qed

section \<open>Rolling and exponentially weighted means read a prefix\<close>

lemma window_obs_take:
  assumes "j < n"
  shows "window_obs weights (take n xs) j = window_obs weights xs j"
proof -
  have "take n xs ! (j - d) = xs ! (j - d)" for d
    using assms by simp
  then show ?thesis by (simp add: window_obs_def)
qed

lemma nth_roll_weighted_mean:
  "j < length xs \<Longrightarrow>
   roll_weighted_mean weights minp xs ! j
   = (let obs = window_obs weights xs j; tot_wgt = sum_list (map fst obs)
      in if length obs < max minp 1 \<or> tot_wgt = 0 then None
         else Some (sum_list (map (\<lambda>(w, v). v * w) obs) / tot_wgt))"
  by (simp add: roll_weighted_mean_def)

lemma length_roll_weighted_mean [simp]:
  "length (roll_weighted_mean weights minp xs) = length xs"
  by (simp add: roll_weighted_mean_def)

lemma roll_weighted_mean_prefix:
  assumes "j < length xs" and "j < length ys" and "take (Suc j) xs = take (Suc j) ys"
  shows "roll_weighted_mean weights minp xs ! j = roll_weighted_mean weights minp ys ! j"
proof -
  have "window_obs weights xs j = window_obs weights (take (Suc j) xs) j"
    by (simp add: window_obs_take)
  also have "\<dots> = window_obs weights ys j"
    unfolding assms(3) by (simp add: window_obs_take)
  finally show ?thesis
    using assms(1,2) by (simp add: nth_roll_weighted_mean)
qed

lemma length_ewm_scan [simp]: "length (ewm_scan alpha st xs) = length xs"
  by (induction xs arbitrary: st) (simp_all add: Let_def)

lemma take_ewm_scan: "take n (ewm_scan alpha st xs) = ewm_scan alpha st (take n xs)"
proof (induction xs arbitrary: st n)
  case Nil
  show ?case by simp
next
  case (Cons x xs)
  show ?case by (cases n) (simp_all add: Let_def Cons.IH)
qed

lemma length_ewm_mean [simp]: "length (ewm_mean alpha xs) = length xs"
  by (simp add: ewm_mean_def)

lemma ewm_mean_prefix:
  assumes "j < length xs" and "j < length ys" and "take (Suc j) xs = take (Suc j) ys"
  shows "ewm_mean alpha xs ! j = ewm_mean alpha ys ! j"
proof -
  have "ewm_mean alpha xs ! j = take (Suc j) (ewm_mean alpha xs) ! j" by simp
  also have "\<dots> = take (Suc j) (ewm_mean alpha ys) ! j"
    unfolding ewm_mean_def take_ewm_scan assms(3) ..
  also have "\<dots> = ewm_mean alpha ys ! j" by simp
  finally show ?thesis .
qed

lemma take_shift_cong:
  assumes "length xs = length ys" and "n \<le> length xs"
    and "take (n - k) xs = take (n - k) ys"
  shows "take n (shift k xs) = take n (shift k ys)"
  using assms by (simp add: take_shift)

section \<open>The series of a row depend on its group only\<close>

lemma length_group_totals:
  "length (group_totals df k) = length (filter (\<lambda>k'. k' = k) (map merchant_id df))"
  by (simp add: group_totals_def filter_map comp_def)

lemma nth_roll_mean_series:
  assumes "r < length df"
  shows "roll_mean_series df W ! r
         = roll_weighted_mean (triang W) 10
             (shift 1 (map Some (group_totals df (merchant_id (df ! r)))))
             ! group_pos (map merchant_id df) r"
  using assms
  by (simp add: roll_mean_series_def nth_group_transform group_values_targets)

lemma nth_ewm_series:
  assumes "r < length df"
  shows "ewm_series df alpha L ! r
         = ewm_mean alpha (shift L (map Some (group_totals df (merchant_id (df ! r)))))
             ! group_pos (map merchant_id df) r"
  using assms
  by (simp add: ewm_series_def nth_group_transform group_values_targets)

lemma group_roll_depends:
  assumes "i < length xs" and "length ys = length xs" and "take i ys = take i xs"
  shows "roll_weighted_mean weights minp (shift 1 (map Some ys)) ! i
         = roll_weighted_mean weights minp (shift 1 (map Some xs)) ! i"
proof (rule roll_weighted_mean_prefix)
  show "i < length (shift 1 (map Some ys))" using assms by simp
  show "i < length (shift 1 (map Some xs))" using assms by simp
  show "take (Suc i) (shift 1 (map Some ys)) = take (Suc i) (shift 1 (map Some xs))"
    using assms by (intro take_shift_cong) (simp_all add: take_map)
qed

lemma group_ewm_depends:
  assumes "i < length xs" and "length ys = length xs"
    and "take (Suc i - L) ys = take (Suc i - L) xs"
  shows "ewm_mean alpha (shift L (map Some ys)) ! i
         = ewm_mean alpha (shift L (map Some xs)) ! i"
proof (rule ewm_mean_prefix)
  show "i < length (shift L (map Some ys))" using assms by simp
  show "i < length (shift L (map Some xs))" using assms by simp
  show "take (Suc i) (shift L (map Some ys)) = take (Suc i) (shift L (map Some xs))"
    using assms by (intro take_shift_cong) (simp_all add: take_map)
qed

lemma roll_mean_series_depends:
  assumes "map merchant_id df' = map merchant_id df" and "r < length df"
    and "take (group_pos (map merchant_id df) r) (group_totals df' (merchant_id (df ! r)))
         = take (group_pos (map merchant_id df) r) (group_totals df (merchant_id (df ! r)))"
  shows "roll_mean_series df' W ! r = roll_mean_series df W ! r"
proof -
  have len: "length df' = length df" using assms(1) by (metis length_map)
  have k: "merchant_id (df' ! r) = merchant_id (df ! r)"
    using assms(1,2) len by (metis nth_map)
  have l: "length (group_totals df' (merchant_id (df ! r)))
           = length (group_totals df (merchant_id (df ! r)))"
    by (simp add: length_group_totals assms(1))
  have i: "group_pos (map merchant_id df) r < length (group_totals df (merchant_id (df ! r)))"
    using group_totals_at_pos [OF assms(2)] by simp
  have "roll_mean_series df' W ! r
        = roll_weighted_mean (triang W) 10
            (shift 1 (map Some (group_totals df' (merchant_id (df' ! r)))))
            ! group_pos (map merchant_id df') r"
    by (rule nth_roll_mean_series) (simp add: len assms(2))
  also have "\<dots> = roll_weighted_mean (triang W) 10
            (shift 1 (map Some (group_totals df' (merchant_id (df ! r)))))
            ! group_pos (map merchant_id df) r"
    unfolding k assms(1) ..
  also have "\<dots> = roll_weighted_mean (triang W) 10
            (shift 1 (map Some (group_totals df (merchant_id (df ! r)))))
            ! group_pos (map merchant_id df) r"
    by (rule group_roll_depends [OF i l assms(3)])
  also have "\<dots> = roll_mean_series df W ! r"
    by (rule nth_roll_mean_series [OF assms(2), symmetric])
  finally show ?thesis .
qed

lemma ewm_series_depends:
  assumes "map merchant_id df' = map merchant_id df" and "r < length df"
    and "take (Suc (group_pos (map merchant_id df) r) - L)
           (group_totals df' (merchant_id (df ! r)))
         = take (Suc (group_pos (map merchant_id df) r) - L)
           (group_totals df (merchant_id (df ! r)))"
  shows "ewm_series df' alpha L ! r = ewm_series df alpha L ! r"
proof -
  have len: "length df' = length df" using assms(1) by (metis length_map)
  have k: "merchant_id (df' ! r) = merchant_id (df ! r)"
    using assms(1,2) len by (metis nth_map)
  have l: "length (group_totals df' (merchant_id (df ! r)))
           = length (group_totals df (merchant_id (df ! r)))"
    by (simp add: length_group_totals assms(1))
  have i: "group_pos (map merchant_id df) r < length (group_totals df (merchant_id (df ! r)))"
    using group_totals_at_pos [OF assms(2)] by simp
  have "ewm_series df' alpha L ! r
        = ewm_mean alpha (shift L (map Some (group_totals df' (merchant_id (df' ! r)))))
            ! group_pos (map merchant_id df') r"
    by (rule nth_ewm_series) (simp add: len assms(2))
  also have "\<dots> = ewm_mean alpha (shift L (map Some (group_totals df' (merchant_id (df ! r)))))
            ! group_pos (map merchant_id df) r"
    unfolding k assms(1) ..
  also have "\<dots> = ewm_mean alpha (shift L (map Some (group_totals df (merchant_id (df ! r)))))
            ! group_pos (map merchant_id df) r"
    by (rule group_ewm_depends [OF i l assms(3)])
  also have "\<dots> = ewm_series df alpha L ! r"
    by (rule nth_ewm_series [OF assms(2), symmetric])
  finally show ?thesis .
qed

section \<open>Properties of the rolling-mean features\<close>

lemma length_roll_mean_series [simp]: "length (roll_mean_series df window) = length df"
  by (simp add: roll_mean_series_def)

lemma roll_mean_series_assign [simp]:
  "length col = length df \<Longrightarrow>
   roll_mean_series (assign name col df) window = roll_mean_series df window"
  by (simp add: roll_mean_series_def)

lemma roll_mean_features_step:
  "roll_mean_features df (window # windows) g
   = roll_mean_features
       (assign (roll_name window)
          (add_noise (roll_mean_series df window) (fst (random_noise df g))) df)
       windows (snd (random_noise df g))"
  by (simp add: split_def Let_def)

lemma roll_mean_features_other_column:
  "name \<notin> roll_name ` set windows \<Longrightarrow>
   column name (fst (roll_mean_features df windows g)) = column name df"
proof (induction windows arbitrary: df g)
  case Nil
  show ?case by simp
next
  case (Cons window windows)
  from Cons.prems have a: "name \<noteq> roll_name window"
    and b: "name \<notin> roll_name ` set windows"
    by auto
  show ?case
    unfolding roll_mean_features_step Cons.IH [OF b]
    using a by (simp add: column_assign_other)
qed

lemma roll_mean_features_last_write:
  "W \<notin> set zs \<Longrightarrow>
   column (roll_name W) (fst (roll_mean_features df (ys @ W # zs) g))
   = map Some (add_noise (roll_mean_series df W)
       (map (\<lambda>i. (16 / 10) * g (i + length ys * length df)) [0..<length df]))"
proof (induction ys arbitrary: df g)
  case Nil
  then have n: "roll_name W \<notin> roll_name ` set zs"
    using roll_name_inj by blast
  have "column (roll_name W) (fst (roll_mean_features df ([] @ W # zs) g))
        = map Some (add_noise (roll_mean_series df W) (fst (random_noise df g)))"
    unfolding append_Nil roll_mean_features_step roll_mean_features_other_column [OF n]
    by (simp add: column_assign_same)
  also have "fst (random_noise df g)
        = map (\<lambda>i. (16 / 10) * g (i + length ([]::nat list) * length df)) [0..<length df]"
    by (simp add: random_noise_def)
  finally show ?case .
next
  case (Cons y ys)
  let ?df = "assign (roll_name y)
               (add_noise (roll_mean_series df y) (fst (random_noise df g))) df"
  have len: "length ?df = length df" by simp
  have "column (roll_name W) (fst (roll_mean_features df ((y # ys) @ W # zs) g))
        = column (roll_name W)
            (fst (roll_mean_features ?df (ys @ W # zs) (snd (random_noise df g))))"
    unfolding append_Cons roll_mean_features_step ..
  also have "\<dots> = map Some (add_noise (roll_mean_series ?df W)
       (map (\<lambda>i. (16 / 10) * snd (random_noise df g) (i + length ys * length ?df))
          [0..<length ?df]))"
    using Cons.IH [OF Cons.prems] .
  also have "roll_mean_series ?df W = roll_mean_series df W" by simp
  also have "(map (\<lambda>i. (16 / 10) * snd (random_noise df g) (i + length ys * length ?df))
          [0..<length ?df])
     = map (\<lambda>i. (16 / 10) * g (i + length (y # ys) * length df)) [0..<length df]"
    unfolding len by (simp add: random_noise_def ac_simps)
  finally show ?case .
qed

section \<open>Properties of the exponentially weighted features\<close>

lemma digit_char_not_underscore: "d < 10 \<Longrightarrow> digit_char d \<noteq> CHR ''_''"
proof
  assume d: "d < 10" and "digit_char d = CHR ''_''"
  then have "(of_char (char_of (48 + d)) :: nat) = of_char CHR ''_''"
    by (simp add: digit_char_def)
  then have "(48 + d) mod 256 = 95" by (simp add: take_bit_eq_mod)
  then show False using d by simp
qed

lemma str_nat_no_underscore: "CHR ''_'' \<notin> set (str_nat n)"
proof (induction n rule: str_nat.induct)
  case (1 n)
  show ?case
  proof (cases "n < 10")
    case True
    then show ?thesis
      using digit_char_not_underscore [of n] by (subst str_nat.simps) auto
  next
    case False
    then show ?thesis
      using "1.IH" digit_char_not_underscore [of "n mod 10"]
      by (subst str_nat.simps) auto
  qed
qed

lemma suffix_after_separator:
  assumes "c \<notin> set s" and "c \<notin> set s'" and "x @ c # s = x' @ c # s'"
  shows "s = s'"
proof -
  have t: "takeWhile (\<lambda>a. a \<noteq> c) (rev u @ c # v) = rev u" if "c \<notin> set u" for u v
    using that by (subst takeWhile_append2) auto
  have "rev (x @ c # s) = rev (x' @ c # s')" using assms(3) by simp
  then have "rev s @ c # rev x = rev s' @ c # rev x'" by simp
  then have "takeWhile (\<lambda>a. a \<noteq> c) (rev s @ c # rev x)
             = takeWhile (\<lambda>a. a \<noteq> c) (rev s' @ c # rev x')" by simp
  then have "rev s = rev s'" using t [OF assms(1)] t [OF assms(2)] by simp
  then show ?thesis by simp
qed

lemma ewm_name_lag:
  assumes "ewm_name sf a l = ewm_name sf a' l'"
  shows "l = l'"
proof -
  have n: "ewm_name sf b m
           = (''sales_ewm_alpha_'' @ filter (\<lambda>c. c \<noteq> CHR ''.'') (sf b) @ ''_lag'')
               @ CHR ''_'' # str_nat m" for b m
    by (simp add: ewm_name_def)
  have "str_nat l = str_nat l'"
    using assms unfolding n
    by (rule suffix_after_separator [OF str_nat_no_underscore str_nat_no_underscore])
  then show ?thesis by (rule str_nat_inj)
qed

lemma length_ewm_series [simp]: "length (ewm_series df alpha lag) = length df"
  by (simp add: ewm_series_def)

lemma ewm_series_assign [simp]:
  "length col = length df \<Longrightarrow>
   ewm_series (assign name col df) alpha lag = ewm_series df alpha lag"
  by (simp add: ewm_series_def)

lemma ewm_lags_keeps:
  "length (ewm_lags sf df alpha lags) = length df
   \<and> map merchant_id (ewm_lags sf df alpha lags) = map merchant_id df
   \<and> target_series (ewm_lags sf df alpha lags) = target_series df"
  by (induction lags arbitrary: df) simp_all

lemma ewm_series_ewm_lags [simp]:
  "ewm_series (ewm_lags sf df alpha lags) a l = ewm_series df a l"
  using ewm_lags_keeps [of sf df alpha lags] by (simp add: ewm_series_def)

lemma ewm_lags_other_column:
  "name \<notin> ewm_name sf alpha ` set lags \<Longrightarrow>
   column name (ewm_lags sf df alpha lags) = column name df"
proof (induction lags arbitrary: df)
  case Nil
  show ?case by simp
next
  case (Cons lag lags)
  from Cons.prems have a: "name \<noteq> ewm_name sf alpha lag"
    and b: "name \<notin> ewm_name sf alpha ` set lags"
    by auto
  show ?case
    using a by (simp add: Cons.IH [OF b] column_assign_other)
qed

lemma ewm_lags_written_column:
  "L \<in> set lags \<Longrightarrow>
   column (ewm_name sf alpha L) (ewm_lags sf df alpha lags)
   = map Some (ewm_series df alpha L)"
proof (induction lags arbitrary: df)
  case Nil
  then show ?case by simp
next
  case (Cons lag lags)
  show ?case
  proof (cases "L \<in> set lags")
    case True
    show ?thesis by (simp add: Cons.IH [OF True])
  next
    case False
    with Cons.prems have eq: "lag = L" by simp
    have "ewm_name sf alpha L \<notin> ewm_name sf alpha ` set lags"
      using False ewm_name_lag by blast
    then show ?thesis
      by (simp add: eq ewm_lags_other_column column_assign_same)
  qed
qed

lemma ewm_features_other_column:
  "\<forall>a \<in> set alphas. \<forall>l \<in> set lags. ewm_name sf a l \<noteq> name \<Longrightarrow>
   column name (ewm_features sf df alphas lags) = column name df"
proof (induction alphas arbitrary: df)
  case Nil
  show ?case by simp
next
  case (Cons alpha alphas)
  from Cons.prems have a: "name \<notin> ewm_name sf alpha ` set lags"
    and b: "\<forall>a \<in> set alphas. \<forall>l \<in> set lags. ewm_name sf a l \<noteq> name"
    by auto
  show ?case
    by (simp add: Cons.IH [OF b] ewm_lags_other_column [OF a])
qed

lemma ewm_features_written_column:
  "alpha \<in> set alphas \<Longrightarrow> L \<in> set lags \<Longrightarrow>
   \<exists>a \<in> set alphas. ewm_name sf a L = ewm_name sf alpha L
     \<and> (\<forall>df. column (ewm_name sf alpha L) (ewm_features sf df alphas lags)
               = map Some (ewm_series df a L))"
proof (induction alphas arbitrary: alpha)
  case Nil
  then show ?case by simp
next
  case (Cons a0 alphas)
  let ?name = "ewm_name sf alpha L"
  show ?case
  proof (cases "\<exists>a' \<in> set alphas. \<exists>l' \<in> set lags. ewm_name sf a' l' = ?name")
    case True
    then obtain a' l' where a': "a' \<in> set alphas" and l': "l' \<in> set lags"
      and eq: "ewm_name sf a' l' = ?name" by blast
    have "l' = L" using eq by (rule ewm_name_lag)
    with eq have eq': "ewm_name sf a' L = ?name" by simp
    from Cons.IH [OF a' Cons.prems(2)] obtain a where a: "a \<in> set alphas"
      and n: "ewm_name sf a L = ewm_name sf a' L"
      and c: "\<forall>df. column (ewm_name sf a' L) (ewm_features sf df alphas lags)
                    = map Some (ewm_series df a L)"
      by blast
    have "\<forall>df. column ?name (ewm_features sf df (a0 # alphas) lags)
               = map Some (ewm_series df a L)"
      using c unfolding eq' by simp
    with a n eq' show ?thesis by auto
  next
    case False
    then have none: "\<forall>a \<in> set alphas. \<forall>l \<in> set lags. ewm_name sf a l \<noteq> ?name"
      by blast
    have "alpha \<notin> set alphas" using none Cons.prems(2) by blast
    with Cons.prems(1) have eq: "alpha = a0" by simp
    have "\<forall>df. column ?name (ewm_features sf df (a0 # alphas) lags)
               = map Some (ewm_series df a0 L)"
      by (simp add: ewm_features_other_column [OF none])
         (simp add: eq ewm_lags_written_column [OF Cons.prems(2)])
    then show ?thesis using eq by auto
  qed
qed

lemma merchant_rows_simps:
  "length (merchant_rows m ts) = length ts"
  "map merchant_id (merchant_rows m ts) = replicate (length ts) m"
  "group_totals (merchant_rows m ts) k = (if k = m then ts else [])"
proof -
  show "length (merchant_rows m ts) = length ts" by (simp add: merchant_rows_def)
  show "map merchant_id (merchant_rows m ts) = replicate (length ts) m"
    by (rule nth_equalityI) (simp_all add: merchant_rows_def)
  have "map Total_Transaction (merchant_rows m ts) = ts"
    by (rule nth_equalityI) (simp_all add: merchant_rows_def)
  moreover have "filter (\<lambda>r. merchant_id r = k) (merchant_rows m ts)
        = (if k = m then merchant_rows m ts else [])"
    by (auto simp: merchant_rows_def filter_empty_conv intro!: filter_True)
  ultimately show "group_totals (merchant_rows m ts) k = (if k = m then ts else [])"
    by (simp add: group_totals_def)
qed

lemma group_totals_append:
  "group_totals (a @ b) k = group_totals a k @ group_totals b k"
  by (simp add: group_totals_def)

text \<open>
  Claim C4. Take two frames with the same merchant column and a row at position \<open>i\<close> of
  its merchant's group. If the two frames agree on the targets of the group's rows
  before position \<open>i\<close> (the strictly earlier rows of the group), the rolling-mean
  feature of the row is the same in both, for every window of the list and the same
  generator: the target is shifted by 1 before the window is applied. If they agree on
  the targets of the group's rows up to position \<open>i - L\<close> (the rows at least \<open>L\<close> rows
  earlier), the exponentially weighted feature of the row for lag \<open>L\<close> is the same in
  both: the target is shifted by \<open>L\<close> before the mean is taken. With a positive lag
  these are strictly earlier rows. So the target of the row itself and of later rows,
  and the targets of other groups, have no effect on either feature.
\<close>

theorem rolling_and_ewm_use_only_the_past:
  assumes "map merchant_id df' = map merchant_id df" and "r < length df"
    and "k = merchant_id (df ! r)" and "i = group_pos (map merchant_id df) r"
  shows "(W \<in> set windows \<and> take i (group_totals df' k) = take i (group_totals df k)
          \<longrightarrow> column (roll_name W) (fst (roll_mean_features df' windows g)) ! r
               = column (roll_name W) (fst (roll_mean_features df windows g)) ! r)
       \<and> (alpha \<in> set alphas \<and> L \<in> set lags
           \<and> take (Suc i - L) (group_totals df' k) = take (Suc i - L) (group_totals df k)
          \<longrightarrow> column (ewm_name sf alpha L) (ewm_features sf df' alphas lags) ! r
               = column (ewm_name sf alpha L) (ewm_features sf df alphas lags) ! r)
       \<and> (alpha \<in> set alphas \<and> L \<in> set lags \<and> 0 < L
           \<and> take i (group_totals df' k) = take i (group_totals df k)
          \<longrightarrow> column (ewm_name sf alpha L) (ewm_features sf df' alphas lags) ! r
               = column (ewm_name sf alpha L) (ewm_features sf df alphas lags) ! r)"
proof -
  have len: "length df' = length df" using assms(1) by (metis length_map)
  have roll: "column (roll_name W) (fst (roll_mean_features df' windows g)) ! r
               = column (roll_name W) (fst (roll_mean_features df windows g)) ! r"
    if W: "W \<in> set windows"
      and t: "take i (group_totals df' k) = take i (group_totals df k)"
  proof -
    from split_list_last [OF W] obtain ys zs where w: "windows = ys @ W # zs"
      and z: "W \<notin> set zs" by blast
    have s: "roll_mean_series df' W ! r = roll_mean_series df W ! r"
      using t unfolding assms(3,4) by (rule roll_mean_series_depends [OF assms(1,2)])
    show ?thesis
      unfolding w roll_mean_features_last_write [OF z] len
      using assms(2) len s by (simp add: nth_add_noise)
  qed
  have ewm: "column (ewm_name sf alpha L) (ewm_features sf df' alphas lags) ! r
               = column (ewm_name sf alpha L) (ewm_features sf df alphas lags) ! r"
    if a: "alpha \<in> set alphas" and l: "L \<in> set lags"
      and t: "take (Suc i - L) (group_totals df' k) = take (Suc i - L) (group_totals df k)"
  proof -
    from ewm_features_written_column [OF a l, of sf] obtain a' where
      c: "\<forall>d. column (ewm_name sf alpha L) (ewm_features sf d alphas lags)
               = map Some (ewm_series d a' L)"
      by blast
    have s: "ewm_series df' a' L ! r = ewm_series df a' L ! r"
      using t unfolding assms(3,4) by (rule ewm_series_depends [OF assms(1,2)])
    show ?thesis
      using assms(2) len s by (simp add: c)
  qed
  have ewm_pos: "column (ewm_name sf alpha L) (ewm_features sf df' alphas lags) ! r
               = column (ewm_name sf alpha L) (ewm_features sf df alphas lags) ! r"
    if a: "alpha \<in> set alphas" and l: "L \<in> set lags" and p: "0 < L"
      and t: "take i (group_totals df' k) = take i (group_totals df k)"
  proof -
    have "take (Suc i - L) (take i (group_totals df' k))
          = take (Suc i - L) (take i (group_totals df k))"
      using t by simp
    moreover have "min (Suc i - L) i = Suc i - L" using p by simp
    ultimately have "take (Suc i - L) (group_totals df' k)
                     = take (Suc i - L) (group_totals df k)"
      by (simp add: take_take)
    then show ?thesis by (rule ewm [OF a l])
  qed
  from roll ewm ewm_pos show ?thesis by blast
qed

theorem rolling_and_ewm_use_only_the_past_witness:
  "column (roll_name 10)
     (fst (roll_mean_features
        (merchant_rows 2 [9] @ merchant_rows 1 [3, 1, 4, 1, 5, 9, 2, 6, 5, 3, 7, 7])
        [10] of_nat)) ! 11
   = column (roll_name 10)
     (fst (roll_mean_features
        (merchant_rows 2 [6] @ merchant_rows 1 [3, 1, 4, 1, 5, 9, 2, 6, 5, 3, 5, 8])
        [10] of_nat)) ! 11
   \<and> column (roll_name 10)
     (fst (roll_mean_features
        (merchant_rows 2 [6] @ merchant_rows 1 [3, 1, 4, 1, 5, 9, 2, 6, 5, 3, 5, 8])
        [10] of_nat)) ! 11
   = Some (Some (221 / 50 + (16 / 10) * 11))
   \<and> column (ewm_name (\<lambda>a. ''0.5'') (1 / 2) 1)
     (ewm_features (\<lambda>a. ''0.5'')
        (merchant_rows 2 [9] @ merchant_rows 1 [3, 1, 4, 1, 5, 9, 2, 6, 5, 3, 7, 7])
        [1 / 2] [1]) ! 11
   = column (ewm_name (\<lambda>a. ''0.5'') (1 / 2) 1)
     (ewm_features (\<lambda>a. ''0.5'')
        (merchant_rows 2 [6] @ merchant_rows 1 [3, 1, 4, 1, 5, 9, 2, 6, 5, 3, 5, 8])
        [1 / 2] [1]) ! 11
   \<and> column (ewm_name (\<lambda>a. ''0.5'') (1 / 2) 1)
     (ewm_features (\<lambda>a. ''0.5'')
        (merchant_rows 2 [6] @ merchant_rows 1 [3, 1, 4, 1, 5, 9, 2, 6, 5, 3, 5, 8])
        [1 / 2] [1]) ! 11
   = Some (Some (4109 / 1023))"
proof -
  let ?B = "merchant_rows 2 [9] @ merchant_rows 1 [3, 1, 4, 1, 5, 9, 2, 6, 5, 3, 7, 7]"
  let ?A = "merchant_rows 2 [6] @ merchant_rows 1 [3, 1, 4, 1, 5, 9, 2, 6, 5, 3, 5, 8]"
  have keys: "map merchant_id ?A = [2, 1, 1, 1, 1, 1, 1, 1, 1, 1, 1, 1, 1]"
    by (simp add: merchant_rows_simps)
  have m: "map merchant_id ?B = map merchant_id ?A"
    by (simp add: merchant_rows_simps)
  have r: "11 < length ?A" by (simp add: merchant_rows_simps)
  have "merchant_id (?A ! 11) = map merchant_id ?A ! 11"
    using r by (simp only: nth_map)
  then have k': "merchant_id (?A ! 11) = 1" unfolding keys by simp
  then have k: "1 = merchant_id (?A ! 11)" by simp
  have i': "group_pos (map merchant_id ?A) 11 = 10"
    unfolding keys by (simp add: group_pos_def)
  then have i: "10 = group_pos (map merchant_id ?A) 11" by simp
  have gA: "group_totals ?A 1 = [3, 1, 4, 1, 5, 9, 2, 6, 5, 3, 5, 8]"
    by (simp add: group_totals_append merchant_rows_simps)
  have gB: "group_totals ?B 1 = [3, 1, 4, 1, 5, 9, 2, 6, 5, 3, 7, 7]"
    by (simp add: group_totals_append merchant_rows_simps)
  have w: "(10::nat) \<in> set [10]" and a: "(1 / 2 :: real) \<in> set [1 / 2]"
    and l: "(1::nat) \<in> set [1]" by simp_all
  have t1: "take 10 (group_totals ?B 1) = take 10 (group_totals ?A 1)"
    unfolding gA gB by simp
  have t2: "take (Suc 10 - 1) (group_totals ?B 1) = take (Suc 10 - 1) (group_totals ?A 1)"
    unfolding gA gB by simp
  note th = rolling_and_ewm_use_only_the_past [OF m r k i,
      of 10 "[10]" of_nat "1 / 2" "[1 / 2]" 1 "[1]" "\<lambda>a. ''0.5''"]
  have c1: "column (roll_name 10) (fst (roll_mean_features ?B [10] of_nat)) ! 11
            = column (roll_name 10) (fst (roll_mean_features ?A [10] of_nat)) ! 11"
    using th w t1 by blast
  have c2: "column (ewm_name (\<lambda>a. ''0.5'') (1 / 2) 1)
              (ewm_features (\<lambda>a. ''0.5'') ?B [1 / 2] [1]) ! 11
            = column (ewm_name (\<lambda>a. ''0.5'') (1 / 2) 1)
              (ewm_features (\<lambda>a. ''0.5'') ?A [1 / 2] [1]) ! 11"
    using th a l t2 by blast
  have rv: "roll_weighted_mean (triang 10) 10
              (shift 1 (map Some [3, 1, 4, 1, 5, 9, 2, 6, 5, 3, 5, 8])) ! 10
            = Some (221 / 50)"
    by code_simp
  have ev: "ewm_mean (1 / 2) (shift 1 (map Some [3, 1, 4, 1, 5, 9, 2, 6, 5, 3, 5, 8])) ! 10
            = Some (4109 / 1023)"
    by code_simp
  have rs: "roll_mean_series ?A 10 ! 11 = Some (221 / 50)"
    unfolding nth_roll_mean_series [OF r] k' i' gA by (rule rv)
  have es: "ewm_series ?A (1 / 2) 1 ! 11 = Some (4109 / 1023)"
    unfolding nth_ewm_series [OF r] k' i' gA by (rule ev)
  have n: "(10::nat) \<notin> set []" by simp
  have "column (roll_name 10) (fst (roll_mean_features ?A ([] @ 10 # []) of_nat)) ! 11
        = Some (Some (221 / 50 + (16 / 10) * 11))"
    unfolding roll_mean_features_last_write [OF n]
    using r by (simp add: nth_add_noise rs)
  then have c3: "column (roll_name 10) (fst (roll_mean_features ?A [10] of_nat)) ! 11
        = Some (Some (221 / 50 + (16 / 10) * 11))"
    by simp
  have "column (ewm_name (\<lambda>a. ''0.5'') (1 / 2) 1)
              (ewm_features (\<lambda>a. ''0.5'') ?A [1 / 2] [1])
        = map Some (ewm_series ?A (1 / 2) 1)"
    by (simp add: column_assign_same)
  then have c4: "column (ewm_name (\<lambda>a. ''0.5'') (1 / 2) 1)
              (ewm_features (\<lambda>a. ''0.5'') ?A [1 / 2] [1]) ! 11
        = Some (Some (4109 / 1023))"
    using r es by simp
  from c1 c3 c2 c4 show ?thesis by blast
qed

section \<open>Features across two frames\<close>

lemma nth_lag_series_shift:
  assumes "r < length df"
  shows "lag_series df L ! r
         = shift L (map Some (group_totals df (merchant_id (df ! r))))
             ! group_pos (map merchant_id df) r"
  using assms by (simp add: lag_series_def nth_group_transform group_values_targets)

lemma lag_features_nth:
  assumes "L \<notin> set zs" and "r < length df"
  shows "column (lag_name L) (fst (lag_features df (ys @ L # zs) g)) ! r
         = Some (map_option (\<lambda>v. v + (16 / 10) * g (r + length ys * length df))
             (shift L (map Some (group_totals df (merchant_id (df ! r))))
                ! group_pos (map merchant_id df) r))"
  unfolding lag_features_last_write [OF assms(1)]
  using assms(2) by (simp add: nth_add_noise nth_lag_series_shift)

lemma roll_mean_features_nth:
  assumes "W \<notin> set zs" and "r < length df"
  shows "column (roll_name W) (fst (roll_mean_features df (ys @ W # zs) g)) ! r
         = Some (map_option (\<lambda>v. v + (16 / 10) * g (r + length ys * length df))
             (roll_weighted_mean (triang W) 10
                (shift 1 (map Some (group_totals df (merchant_id (df ! r)))))
                ! group_pos (map merchant_id df) r))"
proof -
  have "column (roll_name W) (fst (roll_mean_features df (ys @ W # zs) g)) ! r
        = Some (map_option (\<lambda>v. v + (16 / 10) * g (r + length ys * length df))
             (roll_mean_series df W ! r))"
    unfolding roll_mean_features_last_write [OF assms(1)]
    using assms(2) by (simp add: nth_add_noise)
  then show ?thesis unfolding nth_roll_mean_series [OF assms(2)] .
qed

text \<open>
  Claim C5, as stated: when two datasets agree on the rows of a merchant, the lag,
  rolling-mean and exponentially weighted features of these rows are identical in
  both. The noise added to a lag feature is drawn per row of the whole frame: with the
  row of another merchant removed and the same generator, the rows of the merchant move
  up and receive other samples, and the lag feature changes.
\<close>

theorem lag_feature_noise_counterexample:
  "group_totals
     [\<lparr>merchant_id = 2, transaction_date = Some 0, Total_Transaction = 6, Total_Paid = 0,
       derived = Map.empty\<rparr>,
      \<lparr>merchant_id = 1, transaction_date = Some 0, Total_Transaction = 5, Total_Paid = 0,
       derived = Map.empty\<rparr>,
      \<lparr>merchant_id = 1, transaction_date = Some 1, Total_Transaction = 7, Total_Paid = 0,
       derived = Map.empty\<rparr>] 1
   = group_totals
     [\<lparr>merchant_id = 1, transaction_date = Some 0, Total_Transaction = 5, Total_Paid = 0,
       derived = Map.empty\<rparr>,
      \<lparr>merchant_id = 1, transaction_date = Some 1, Total_Transaction = 7, Total_Paid = 0,
       derived = Map.empty\<rparr>] 1
   \<and> column (lag_name 1)
       (fst (lag_features
          [\<lparr>merchant_id = 2, transaction_date = Some 0, Total_Transaction = 6, Total_Paid = 0,
            derived = Map.empty\<rparr>,
           \<lparr>merchant_id = 1, transaction_date = Some 0, Total_Transaction = 5, Total_Paid = 0,
            derived = Map.empty\<rparr>,
           \<lparr>merchant_id = 1, transaction_date = Some 1, Total_Transaction = 7, Total_Paid = 0,
            derived = Map.empty\<rparr>]
          [1] of_nat)) ! 2
     = Some (Some (41 / 5))
   \<and> column (lag_name 1)
       (fst (lag_features
          [\<lparr>merchant_id = 1, transaction_date = Some 0, Total_Transaction = 5, Total_Paid = 0,
            derived = Map.empty\<rparr>,
           \<lparr>merchant_id = 1, transaction_date = Some 1, Total_Transaction = 7, Total_Paid = 0,
            derived = Map.empty\<rparr>]
          [1] of_nat)) ! 1
     = Some (Some (33 / 5))
   \<and> column (lag_name 1)
       (fst (lag_features
          [\<lparr>merchant_id = 2, transaction_date = Some 0, Total_Transaction = 6, Total_Paid = 0,
            derived = Map.empty\<rparr>,
           \<lparr>merchant_id = 1, transaction_date = Some 0, Total_Transaction = 5, Total_Paid = 0,
            derived = Map.empty\<rparr>,
           \<lparr>merchant_id = 1, transaction_date = Some 1, Total_Transaction = 7, Total_Paid = 0,
            derived = Map.empty\<rparr>]
          [1] of_nat)) ! 2
     \<noteq> column (lag_name 1)
       (fst (lag_features
          [\<lparr>merchant_id = 1, transaction_date = Some 0, Total_Transaction = 5, Total_Paid = 0,
            derived = Map.empty\<rparr>,
           \<lparr>merchant_id = 1, transaction_date = Some 1, Total_Transaction = 7, Total_Paid = 0,
            derived = Map.empty\<rparr>]
          [1] of_nat)) ! 1"
proof -
  let ?df1 = "[\<lparr>merchant_id = 2, transaction_date = Some 0, Total_Transaction = 6, Total_Paid = 0,
       derived = Map.empty\<rparr>,
      \<lparr>merchant_id = 1, transaction_date = Some 0, Total_Transaction = 5, Total_Paid = 0,
       derived = Map.empty\<rparr>,
      \<lparr>merchant_id = 1, transaction_date = Some 1, Total_Transaction = 7, Total_Paid = 0,
       derived = Map.empty\<rparr>]"
  let ?df2 = "[\<lparr>merchant_id = 1, transaction_date = Some 0, Total_Transaction = 5, Total_Paid = 0,
       derived = Map.empty\<rparr>,
      \<lparr>merchant_id = 1, transaction_date = Some 1, Total_Transaction = 7, Total_Paid = 0,
       derived = Map.empty\<rparr>]"
  have n: "(1::nat) \<notin> set []" by simp
  have a: "group_totals ?df1 1 = group_totals ?df2 1" by (simp add: group_totals_def)
  have "column (lag_name 1) (fst (lag_features ?df1 ([] @ 1 # []) of_nat)) ! 2
        = Some (Some (41 / 5))"
    by (subst lag_features_nth [OF n])
       (simp_all add: group_totals_def group_pos_def numeral_2_eq_2 shift_def)
  then have b: "column (lag_name 1) (fst (lag_features ?df1 [1] of_nat)) ! 2
        = Some (Some (41 / 5))" by simp
  have "column (lag_name 1) (fst (lag_features ?df2 ([] @ 1 # []) of_nat)) ! 1
        = Some (Some (33 / 5))"
    by (subst lag_features_nth [OF n])
       (simp_all add: group_totals_def group_pos_def shift_def)
  then have c: "column (lag_name 1) (fst (lag_features ?df2 [1] of_nat)) ! 1
        = Some (Some (33 / 5))" by simp
  have d: "column (lag_name 1) (fst (lag_features ?df1 [1] of_nat)) ! 2
        \<noteq> column (lag_name 1) (fst (lag_features ?df2 [1] of_nat)) ! 1"
    unfolding b c by simp
  from a b c d show ?thesis by blast
qed

text \<open>
  Claim C5, amended. Let two datasets agree on the target series of a merchant, and
  take the row at the same position of the merchant's group in each. The exponentially
  weighted features of the two rows are identical. The lag and the rolling-mean
  features are identical up to the noise added to each row: each is one and the same
  value, computed from the merchant's own series and the position in the group, plus
  the noise sample of that row in its own frame. The rows of other merchants have no
  effect on that value.
\<close>

theorem group_features_depend_on_group_only:
  assumes "r1 < length df1" and "r2 < length df2"
    and "merchant_id (df1 ! r1) = k" and "merchant_id (df2 ! r2) = k"
    and "group_pos (map merchant_id df1) r1 = i"
    and "group_pos (map merchant_id df2) r2 = i"
    and "group_totals df1 k = group_totals df2 k"
  shows "(lags = ys @ L # zs \<and> L \<notin> set zs \<longrightarrow>
           column (lag_name L) (fst (lag_features df1 lags g1)) ! r1
             = Some (map_option (\<lambda>v. v + (16 / 10) * g1 (r1 + length ys * length df1))
                 (shift L (map Some (group_totals df1 k)) ! i))
         \<and> column (lag_name L) (fst (lag_features df2 lags g2)) ! r2
             = Some (map_option (\<lambda>v. v + (16 / 10) * g2 (r2 + length ys * length df2))
                 (shift L (map Some (group_totals df1 k)) ! i)))
       \<and> (windows = ys' @ W # zs' \<and> W \<notin> set zs' \<longrightarrow>
           column (roll_name W) (fst (roll_mean_features df1 windows g1)) ! r1
             = Some (map_option (\<lambda>v. v + (16 / 10) * g1 (r1 + length ys' * length df1))
                 (roll_weighted_mean (triang W) 10
                    (shift 1 (map Some (group_totals df1 k))) ! i))
         \<and> column (roll_name W) (fst (roll_mean_features df2 windows g2)) ! r2
             = Some (map_option (\<lambda>v. v + (16 / 10) * g2 (r2 + length ys' * length df2))
                 (roll_weighted_mean (triang W) 10
                    (shift 1 (map Some (group_totals df1 k))) ! i)))
       \<and> (alpha \<in> set alphas \<and> L' \<in> set lags' \<longrightarrow>
           column (ewm_name sf alpha L') (ewm_features sf df1 alphas lags') ! r1
             = column (ewm_name sf alpha L') (ewm_features sf df2 alphas lags') ! r2)"
proof -
  have lag: "column (lag_name L) (fst (lag_features df1 lags g1)) ! r1
             = Some (map_option (\<lambda>v. v + (16 / 10) * g1 (r1 + length ys * length df1))
                 (shift L (map Some (group_totals df1 k)) ! i))
         \<and> column (lag_name L) (fst (lag_features df2 lags g2)) ! r2
             = Some (map_option (\<lambda>v. v + (16 / 10) * g2 (r2 + length ys * length df2))
                 (shift L (map Some (group_totals df1 k)) ! i))"
    if "lags = ys @ L # zs" and z: "L \<notin> set zs"
    unfolding that(1) lag_features_nth [OF z assms(1)] lag_features_nth [OF z assms(2)]
      assms(3-6) assms(7) [symmetric]
    by simp
  have roll: "column (roll_name W) (fst (roll_mean_features df1 windows g1)) ! r1
             = Some (map_option (\<lambda>v. v + (16 / 10) * g1 (r1 + length ys' * length df1))
                 (roll_weighted_mean (triang W) 10
                    (shift 1 (map Some (group_totals df1 k))) ! i))
         \<and> column (roll_name W) (fst (roll_mean_features df2 windows g2)) ! r2
             = Some (map_option (\<lambda>v. v + (16 / 10) * g2 (r2 + length ys' * length df2))
                 (roll_weighted_mean (triang W) 10
                    (shift 1 (map Some (group_totals df1 k))) ! i))"
    if "windows = ys' @ W # zs'" and z: "W \<notin> set zs'"
    unfolding that(1) roll_mean_features_nth [OF z assms(1)]
      roll_mean_features_nth [OF z assms(2)] assms(3-6) assms(7) [symmetric]
    by simp
  have ewm: "column (ewm_name sf alpha L') (ewm_features sf df1 alphas lags') ! r1
             = column (ewm_name sf alpha L') (ewm_features sf df2 alphas lags') ! r2"
    if a: "alpha \<in> set alphas" and l: "L' \<in> set lags'"
  proof -
    from ewm_features_written_column [OF a l, of sf] obtain a' where
      c: "\<forall>d. column (ewm_name sf alpha L') (ewm_features sf d alphas lags')
               = map Some (ewm_series d a' L')"
      by blast
    have "ewm_series df1 a' L' ! r1 = ewm_series df2 a' L' ! r2"
      unfolding nth_ewm_series [OF assms(1)] nth_ewm_series [OF assms(2)]
        assms(3-6) assms(7) ..
    then show ?thesis using assms(1,2) by (simp add: c)
  qed
  from lag roll ewm show ?thesis by blast
qed

theorem group_features_depend_on_group_only_witness:
  "column (lag_name 1)
       (fst (lag_features
          [\<lparr>merchant_id = 2, transaction_date = Some 0, Total_Transaction = 6, Total_Paid = 0,
            derived = Map.empty\<rparr>,
           \<lparr>merchant_id = 1, transaction_date = Some 0, Total_Transaction = 5, Total_Paid = 0,
            derived = Map.empty\<rparr>,
           \<lparr>merchant_id = 1, transaction_date = Some 1, Total_Transaction = 7, Total_Paid = 0,
            derived = Map.empty\<rparr>]
          [1] of_nat)) ! 2
     = Some (Some (5 + (16 / 10) * 2))
   \<and> column (lag_name 1)
       (fst (lag_features
          [\<lparr>merchant_id = 1, transaction_date = Some 0, Total_Transaction = 5, Total_Paid = 0,
            derived = Map.empty\<rparr>,
           \<lparr>merchant_id = 1, transaction_date = Some 1, Total_Transaction = 7, Total_Paid = 0,
            derived = Map.empty\<rparr>]
          [1] of_nat)) ! 1
     = Some (Some (5 + (16 / 10) * 1))
   \<and> column (ewm_name (\<lambda>a. ''0.5'') (1 / 2) 1)
       (ewm_features (\<lambda>a. ''0.5'')
          [\<lparr>merchant_id = 2, transaction_date = Some 0, Total_Transaction = 6, Total_Paid = 0,
            derived = Map.empty\<rparr>,
           \<lparr>merchant_id = 1, transaction_date = Some 0, Total_Transaction = 5, Total_Paid = 0,
            derived = Map.empty\<rparr>,
           \<lparr>merchant_id = 1, transaction_date = Some 1, Total_Transaction = 7, Total_Paid = 0,
            derived = Map.empty\<rparr>]
          [1 / 2] [1]) ! 2
     = column (ewm_name (\<lambda>a. ''0.5'') (1 / 2) 1)
       (ewm_features (\<lambda>a. ''0.5'')
          [\<lparr>merchant_id = 1, transaction_date = Some 0, Total_Transaction = 5, Total_Paid = 0,
            derived = Map.empty\<rparr>,
           \<lparr>merchant_id = 1, transaction_date = Some 1, Total_Transaction = 7, Total_Paid = 0,
            derived = Map.empty\<rparr>]
          [1 / 2] [1]) ! 1"
proof -
  let ?df1 = "[\<lparr>merchant_id = 2, transaction_date = Some 0, Total_Transaction = 6, Total_Paid = 0,
       derived = Map.empty\<rparr>,
      \<lparr>merchant_id = 1, transaction_date = Some 0, Total_Transaction = 5, Total_Paid = 0,
       derived = Map.empty\<rparr>,
      \<lparr>merchant_id = 1, transaction_date = Some 1, Total_Transaction = 7, Total_Paid = 0,
       derived = Map.empty\<rparr>]"
  let ?df2 = "[\<lparr>merchant_id = 1, transaction_date = Some 0, Total_Transaction = 5, Total_Paid = 0,
       derived = Map.empty\<rparr>,
      \<lparr>merchant_id = 1, transaction_date = Some 1, Total_Transaction = 7, Total_Paid = 0,
       derived = Map.empty\<rparr>]"
  have r1: "2 < length ?df1" and r2: "1 < length ?df2" by simp_all
  have k1: "merchant_id (?df1 ! 2) = 1" and k2: "merchant_id (?df2 ! 1) = 1" by simp_all
  have i1: "group_pos (map merchant_id ?df1) 2 = 1"
    by (simp add: group_pos_def numeral_2_eq_2)
  have i2: "group_pos (map merchant_id ?df2) 1 = 1"
    by (simp add: group_pos_def)
  have t: "group_totals ?df1 1 = group_totals ?df2 1" by (simp add: group_totals_def)
  have l: "[1] = [] @ (1::nat) # [] \<and> (1::nat) \<notin> set []" by simp
  have a: "(1 / 2 :: real) \<in> set [1 / 2] \<and> (1::nat) \<in> set [1]" by simp
  have b: "shift 1 (map Some (group_totals ?df1 1)) ! 1 = Some 5"
    by (simp add: group_totals_def shift_def)
  note th = group_features_depend_on_group_only [OF r1 r2 k1 k2 i1 i2 t,
      of "[1]" "[]" 1 "[]" of_nat of_nat _ _ _ _ "1 / 2" "[1 / 2]" 1 "[1]" "\<lambda>a. ''0.5''"]
  have c1: "column (lag_name 1) (fst (lag_features ?df1 [1] of_nat)) ! 2
            = Some (Some (5 + (16 / 10) * 2))"
    using th l unfolding b by simp
  have c2: "column (lag_name 1) (fst (lag_features ?df2 [1] of_nat)) ! 1
            = Some (Some (5 + (16 / 10) * 1))"
    using th l unfolding b by simp
  have c3: "column (ewm_name (\<lambda>a. ''0.5'') (1 / 2) 1)
              (ewm_features (\<lambda>a. ''0.5'') ?df1 [1 / 2] [1]) ! 2
            = column (ewm_name (\<lambda>a. ''0.5'') (1 / 2) 1)
              (ewm_features (\<lambda>a. ''0.5'') ?df2 [1 / 2] [1]) ! 1"
    using th a by blast
  from c1 c2 c3 show ?thesis by blast
qed

section \<open>The smallest lag and the validation window\<close>

lemma daily_frame_simps:
  "length (daily_frame n) = n"
  "map merchant_id (daily_frame n) = replicate n 1"
  "group_totals (daily_frame n) 1 = map real [0..<n]"
  "d < n \<Longrightarrow> merchant_id (daily_frame n ! d) = 1"
  "d < n \<Longrightarrow>
     transaction_date (daily_frame n ! d) = Some (days_from_civil 2018 1 1 + int d)"
  "d < n \<Longrightarrow> Total_Transaction (daily_frame n ! d) = real d"
  by (simp_all add: daily_frame_def group_totals_def filter_map comp_def map_replicate_const)

lemma group_pos_replicate: "r < n \<Longrightarrow> group_pos (replicate n k) r = r"
  by (simp add: group_pos_def)

text \<open>
  Claim C6: every lag is at least as long as the forecast horizon, so that the lag
  feature of a validation row never reads a target of the validation window. The
  validation window of the script runs from the cutoff 2020-10-01 to the last day of
  the data, 2020-12-31: 92 days. The smallest lag of the list is 91. For a merchant
  with a row for every day of the data, the \<open>sales_lag_91\<close> feature of the row of
  2020-12-31 is the target of the row of 2020-10-01 (plus noise), and both rows are
  validation rows.
\<close>

theorem lag_91_reads_validation_window:
  "91 \<in> set lag_spec
   \<and> days_from_civil 2020 12 31 - days_from_civil 2020 10 1 + 1 = 92
   \<and> days_from_civil 2020 12 31 - 91 = cutoff
   \<and> transaction_date (daily_frame 1096 ! 1095) = Some (days_from_civil 2020 12 31)
   \<and> daily_frame 1096 ! 1095 \<in> set (val (daily_frame 1096))
   \<and> transaction_date (daily_frame 1096 ! 1004) = Some cutoff
   \<and> daily_frame 1096 ! 1004 \<in> set (val (daily_frame 1096))
   \<and> column (lag_name 91) (fst (lag_features (daily_frame 1096) lag_spec g)) ! 1095
       = Some (Some (Total_Transaction (daily_frame 1096 ! 1004) + (16 / 10) * g 1095))"
proof -
  let ?zs = "[92, 170, 171, 172, 173, 174, 175, 176, 177, 178, 179, 180, 181, 182, 183,
      184, 185, 186, 187, 188, 189, 190,
      350, 351, 352, 352, 354, 355, 356, 357, 358, 359, 360, 361, 362, 363, 364, 365,
      366, 367, 368, 369, 370,
      538, 539, 540, 541, 542,
      718, 719, 720, 721, 722 :: nat]"
  have spec: "lag_spec = [] @ 91 # ?zs" by (simp add: lag_spec_def)
  have z: "91 \<notin> set ?zs" by simp
  have a: "91 \<in> set lag_spec" unfolding spec by simp
  have b: "days_from_civil 2020 12 31 - days_from_civil 2020 10 1 + 1 = 92"
    by (simp add: days_from_civil_def)
  have c: "days_from_civil 2020 12 31 - 91 = cutoff"
    by (simp add: cutoff_def days_from_civil_def)
  have d1: "transaction_date (daily_frame 1096 ! 1095) = Some (days_from_civil 2020 12 31)"
    by (simp add: daily_frame_simps) (simp add: days_from_civil_def)
  have d2: "transaction_date (daily_frame 1096 ! 1004) = Some cutoff"
    by (simp add: daily_frame_simps) (simp add: cutoff_def days_from_civil_def)
  have v1: "daily_frame 1096 ! 1095 \<in> set (val (daily_frame 1096))"
    unfolding val_def using d1 c by (simp add: daily_frame_simps date_ge_def)
  have v2: "daily_frame 1096 ! 1004 \<in> set (val (daily_frame 1096))"
    unfolding val_def using d2 by (simp add: daily_frame_simps date_ge_def)
  have r: "1095 < length (daily_frame 1096)" by (simp add: daily_frame_simps)
  have "column (lag_name 91) (fst (lag_features (daily_frame 1096) ([] @ 91 # ?zs) g)) ! 1095
        = Some (Some (real 1004 + (16 / 10) * g 1095))"
    unfolding lag_features_nth [OF z r]
    by (simp add: daily_frame_simps group_pos_replicate nth_shift)
  then have f: "column (lag_name 91) (fst (lag_features (daily_frame 1096) lag_spec g)) ! 1095
        = Some (Some (Total_Transaction (daily_frame 1096 ! 1004) + (16 / 10) * g 1095))"
    unfolding spec by (simp add: daily_frame_simps)
  from a b c d1 v1 d2 v2 f show ?thesis by blast
qed

end
